theory Spec2Isabelle
  imports Complex_Main "HOL-Library.Multiset"
begin

section \<open>Python strings\<close>

text \<open>
  A Python \<open>str\<close> is a sequence of Unicode code points. The model uses HOL's \<open>string\<close>,
  whose characters are the code points 0 to 255 (Latin-1), and gives \<open>lower\<close>, \<open>upper\<close>,
  \<open>strip\<close> and \<open>startswith\<close> the meaning Python gives them on that range. All text
  of the two question banks is ASCII.
\<close>

definition is_space :: "char \<Rightarrow> bool" where
  \<comment> \<open>\<open>str.isspace\<close> on one code point below 256\<close>
  "is_space c = ((of_char c :: nat) \<in> {9, 10, 11, 12, 13, 28, 29, 30, 31, 32, 133, 160})"

definition lower_char :: "char \<Rightarrow> char" where
  "lower_char c =
     (let n = (of_char c :: nat)
      in if (65 \<le> n \<and> n \<le> 90) \<or> (192 \<le> n \<and> n \<le> 222 \<and> n \<noteq> 215)
         then char_of (n + 32) else c)"

definition upper_char :: "char \<Rightarrow> string" where
  \<comment> \<open>\<open>str.upper\<close> on one code point. The upper case of code point 223 is the two
      letters SS. The upper case of 181 and of 255 lies beyond code point 255; both are
      kept as they are, and neither image is an ASCII letter.\<close>
  "upper_char c =
     (let n = (of_char c :: nat)
      in if (97 \<le> n \<and> n \<le> 122) \<or> (224 \<le> n \<and> n \<le> 254 \<and> n \<noteq> 247)
         then [char_of (n - 32)]
         else if n = 223 then ''SS'' else [c])"

definition py_lower :: "string \<Rightarrow> string" where
  "py_lower s = map lower_char s"

definition py_upper :: "string \<Rightarrow> string" where
  "py_upper s = concat (map upper_char s)"

definition py_strip :: "string \<Rightarrow> string" where
  "py_strip s = rev (dropWhile is_space (rev (dropWhile is_space s)))"

definition startswith :: "string \<Rightarrow> string \<Rightarrow> bool" where
  "startswith s p = (take (length p) s = p)"

fun py_join :: "string \<Rightarrow> string list \<Rightarrow> string" where
  "py_join sep [] = []"
| "py_join sep [x] = x"
| "py_join sep (x # y # ys) = x @ sep @ py_join sep (y # ys)"

datatype error = ValueError | ZeroDivisionError | EOFError

subsection \<open>\<open>int(s, 16)\<close>\<close>

text \<open>
  \<open>int(s, 16)\<close> accepts an optional sign, an optional \<open>0x\<close> prefix, one optional
  underscore after the prefix, and then hexadecimal digits with single underscores between
  them; anything else raises \<open>ValueError\<close>. Python also skips white space around the
  literal; both call sites pass a string that \<open>strip\<close> has already trimmed, so that part
  is not modelled.
\<close>

definition digit_value :: "char \<Rightarrow> nat option" where
  "digit_value c =
     (let n = (of_char c :: nat)
      in if 48 \<le> n \<and> n \<le> 57 then Some (n - 48)
         else if 97 \<le> n \<and> n \<le> 102 then Some (n - 87)
         else if 65 \<le> n \<and> n \<le> 70 then Some (n - 55)
         else None)"

fun hex_digits :: "nat \<Rightarrow> string \<Rightarrow> nat option" where
  "hex_digits acc [] = Some acc"
| "hex_digits acc [c] =
     (case digit_value c of Some v \<Rightarrow> Some (16 * acc + v) | None \<Rightarrow> None)"
| "hex_digits acc (c # d # ds) =
     (case digit_value c of
        Some v \<Rightarrow> hex_digits (16 * acc + v) (d # ds)
      | None \<Rightarrow>
          if c = CHR ''_'' then
            (case digit_value d of
               Some w \<Rightarrow> hex_digits (16 * acc + w) ds
             | None \<Rightarrow> None)
          else None)"

definition hex_literal :: "string \<Rightarrow> nat option" where
  \<comment> \<open>the digits after sign and prefix: not empty, no leading underscore\<close>
  "hex_literal s =
     (case s of
        [] \<Rightarrow> None
      | c # cs \<Rightarrow> (case digit_value c of Some v \<Rightarrow> hex_digits v cs | None \<Rightarrow> None))"

definition py_int16 :: "string \<Rightarrow> error + int" where
  "py_int16 s =
     (let (neg, t) =
            (case s of
               c # r \<Rightarrow> if c = CHR ''-'' then (True, r)
                        else if c = CHR ''+'' then (False, r) else (False, s)
             | [] \<Rightarrow> (False, s));
          u = (if startswith t ''0x'' \<or> startswith t ''0X''
               then (case drop 2 t of c # r \<Rightarrow> if c = CHR ''_'' then r else c # r | [] \<Rightarrow> [])
               else t)
      in case hex_literal u of
           None \<Rightarrow> Inl ValueError
         | Some n \<Rightarrow> Inr (if neg then - int n else int n))"

section \<open>The answer matcher\<close>

text \<open>
  \<open>PacketQuiz.check_answer\<close> (packet\_quiz.py) and \<open>TCPFlagsQuiz.check_answer\<close>
  (tcp\_flags\_quiz.py). A raised exception is \<open>Inl\<close>; the \<open>try\<close> around the two
  \<open>int\<close> calls catches \<open>ValueError\<close> only, and evaluates the canonical answer first.
\<close>

definition hex_equal :: "string \<Rightarrow> string \<Rightarrow> error + bool" where
  \<comment> \<open>the body of the \<open>try\<close> statement with its \<open>except ValueError\<close> handler\<close>
  "hex_equal correct_answer user_answer =
     (case py_int16 correct_answer of
        Inl e \<Rightarrow> if e = ValueError then Inr False else Inl e
      | Inr a \<Rightarrow>
          (case py_int16 user_answer of
             Inl e \<Rightarrow> if e = ValueError then Inr False else Inl e
           | Inr b \<Rightarrow> Inr (a = b)))"

definition PacketQuiz_check_answer :: "string \<Rightarrow> string \<Rightarrow> error + bool" where
  "PacketQuiz_check_answer user_answer0 correct_answer0 =
     (let user_answer = py_strip (py_lower user_answer0);
          correct_answer = py_strip (py_lower correct_answer0)
      in if user_answer = correct_answer then Inr True
         else if correct_answer \<in> set [''true'', ''false'']
                 \<and> user_answer \<in> set [''true'', ''false'', ''t'', ''f'']
         then (let user_answer' =
                     (if user_answer = ''t'' then ''true''
                      else if user_answer = ''f'' then ''false'' else user_answer)
               in Inr (user_answer' = correct_answer))
         else if startswith correct_answer ''0x'' \<and> startswith user_answer ''0x''
         then hex_equal correct_answer user_answer
         else Inr False)"

definition flag_patterns :: "(string \<times> string list) list" where
  \<comment> \<open>the dictionary literal, in insertion order\<close>
  "flag_patterns =
     [(''fin'', [''fin'', ''0x01'', ''tcp-fin'']),
      (''syn'', [''syn'', ''0x02'', ''tcp-syn'']),
      (''rst'', [''rst'', ''0x04'', ''tcp-rst'']),
      (''psh'', [''psh'', ''0x08'', ''tcp-psh'']),
      (''ack'', [''ack'', ''0x10'', ''tcp-ack'']),
      (''urg'', [''urg'', ''0x20'', ''tcp-urg'']),
      (''fin+ack'', [''fin+ack'', ''ack+fin'', ''0x11'', ''tcp-fin|tcp-ack'']),
      (''syn+ack'', [''syn+ack'', ''ack+syn'', ''0x12'', ''tcp-syn|tcp-ack'']),
      (''rst+ack'', [''rst+ack'', ''ack+rst'', ''0x14'', ''tcp-rst|tcp-ack'']),
      (''psh+ack'', [''psh+ack'', ''ack+psh'', ''0x18'', ''tcp-psh|tcp-ack''])]"

fun flag_loop :: "(string \<times> string list) list \<Rightarrow> string \<Rightarrow> string \<Rightarrow> bool" where
  \<comment> \<open>\<open>for key, patterns in flag_patterns.items()\<close>, then the final \<open>return False\<close>\<close>
  "flag_loop [] correct_answer user_answer = False"
| "flag_loop ((key, patterns) # rest) correct_answer user_answer =
     (if correct_answer \<in> set patterns \<and> user_answer \<in> set patterns then True
      else flag_loop rest correct_answer user_answer)"

definition TCPFlagsQuiz_check_answer :: "string \<Rightarrow> string \<Rightarrow> error + bool" where
  "TCPFlagsQuiz_check_answer user_answer0 correct_answer0 =
     (let user_answer = py_strip (py_lower user_answer0);
          correct_answer = py_strip (py_lower correct_answer0)
      in if user_answer = correct_answer then Inr True
         else if correct_answer \<in> set [''true'', ''false'']
                 \<and> user_answer \<in> set [''true'', ''false'', ''t'', ''f'']
         then (let user_answer' =
                     (if user_answer = ''t'' then ''true''
                      else if user_answer = ''f'' then ''false'' else user_answer)
               in Inr (user_answer' = correct_answer))
         else if startswith correct_answer ''0x'' \<and> startswith user_answer ''0x''
         then hex_equal correct_answer user_answer
         else Inr (flag_loop flag_patterns correct_answer user_answer))"

section \<open>Questions and the two banks\<close>

text \<open>
  A question is a dictionary. The model keeps the entries that selection, letter
  resolution and scoring read: \<open>id\<close>, \<open>options\<close> and \<open>answer\<close>. The entries that are
  only printed (\<open>text\<close>, \<open>explanation\<close>, \<open>packet_index\<close>, \<open>hex_location\<close>) are left out.
\<close>

record question =
  qid :: int
  options :: "string list"
  answer :: string

definition PacketQuiz_questions :: "question list" where
  \<comment> \<open>\<open>self.questions\<close> of \<open>PacketQuiz.__init__\<close>\<close>
  "PacketQuiz_questions =
     [
      \<lparr>qid = 1,
        options = [''00:1a:2b:3c:4d:5e'', ''ff:ff:ff:ff:ff:ff'', ''00:1c:2d:3e:4f:60'', ''c0:a8:01:02''],
        answer = ''ff:ff:ff:ff:ff:ff''\<rparr>,
      \<lparr>qid = 2,
        options = [''0x0800'', ''0x0806'', ''0x8035'', ''0x86DD''],
        answer = ''0x0806''\<rparr>,
      \<lparr>qid = 3,
        options = [''192.168.1.1'', ''192.168.1.2'', ''8.8.8.8'', ''93.184.216.34''],
        answer = ''192.168.1.1''\<rparr>,
      \<lparr>qid = 4,
        options = [''True'', ''False''],
        answer = ''False''\<rparr>,
      \<lparr>qid = 5,
        options = [''0x0001 (Request)'', ''0x0002 (Reply)'', ''0x0003 (RARP Request)'', ''0x0004 (RARP Reply)''],
        answer = ''0x0001 (Request)''\<rparr>,
      \<lparr>qid = 6,
        options = [''192.168.1.1'', ''192.168.1.2'', ''8.8.8.8'', ''93.184.216.34''],
        answer = ''8.8.8.8''\<rparr>,
      \<lparr>qid = 7,
        options = [''1'', ''6'', ''17'', ''47''],
        answer = ''1''\<rparr>,
      \<lparr>qid = 8,
        options = [''0'', ''3'', ''5'', ''8''],
        answer = ''8''\<rparr>,
      \<lparr>qid = 9,
        options = [''True'', ''False''],
        answer = ''False''\<rparr>,
      \<lparr>qid = 10,
        options = [''80'', ''443'', ''53'', ''45678''],
        answer = ''80''\<rparr>,
      \<lparr>qid = 11,
        options = [''SYN'', ''ACK'', ''FIN'', ''RST''],
        answer = ''SYN''\<rparr>,
      \<lparr>qid = 12,
        options = [''192.168.1.1'', ''192.168.1.2'', ''8.8.8.8'', ''93.184.216.34''],
        answer = ''192.168.1.2''\<rparr>,
      \<lparr>qid = 13,
        options = [''192.168.1.1'', ''192.168.1.2'', ''8.8.8.8'', ''93.184.216.34''],
        answer = ''93.184.216.34''\<rparr>,
      \<lparr>qid = 14,
        options = [''80'', ''443'', ''53'', ''45678''],
        answer = ''45678''\<rparr>,
      \<lparr>qid = 15,
        options = [''True'', ''False''],
        answer = ''True''\<rparr>,
      \<lparr>qid = 16,
        options = [''4096'', ''5840'', ''8192'', ''32768''],
        answer = ''8192''\<rparr>,
      \<lparr>qid = 17,
        options = [''5'', ''8'', ''10'', ''12''],
        answer = ''8''\<rparr>,
      \<lparr>qid = 18,
        options = [''IPv4'', ''IPv6'', ''IPv5'', ''IPv4 with extensions''],
        answer = ''IPv4''\<rparr>,
      \<lparr>qid = 19,
        options = [''1024'', ''1460'', ''1500'', ''9000''],
        answer = ''1024''\<rparr>,
      \<lparr>qid = 20,
        options = [''True'', ''False''],
        answer = ''False''\<rparr>,
      \<lparr>qid = 21,
        options = [''53'', ''80'', ''443'', ''67''],
        answer = ''53''\<rparr>,
      \<lparr>qid = 22,
        options = [''1'', ''6'', ''17'', ''47''],
        answer = ''17''\<rparr>,
      \<lparr>qid = 23,
        options = [''example.com'', ''google.com'', ''dns.com'', ''local.net''],
        answer = ''example.com''\<rparr>,
      \<lparr>qid = 24,
        options = [''A'', ''AAAA'', ''MX'', ''TXT''],
        answer = ''TXT''\<rparr>,
      \<lparr>qid = 25,
        options = [''53'', ''49573'', ''80'', ''443''],
        answer = ''49573''\<rparr>,
      \<lparr>qid = 26,
        options = [''0x0001 (Ethernet)'', ''0x0006 (IEEE 802)'', ''0x0007 (ARCNET)'', ''0x000F (Frame Relay)''],
        answer = ''0x0001 (Ethernet)''\<rparr>,
      \<lparr>qid = 27,
        options = [''0x0800 (IPv4)'', ''0x0806 (ARP)'', ''0x86DD (IPv6)'', ''0x8035 (RARP)''],
        answer = ''0x0800 (IPv4)''\<rparr>,
      \<lparr>qid = 28,
        options = [''True'', ''False''],
        answer = ''True''\<rparr>,
      \<lparr>qid = 29,
        options = [''4'', ''6'', ''8'', ''10''],
        answer = ''6''\<rparr>,
      \<lparr>qid = 30,
        options = [''2'', ''4'', ''6'', ''8''],
        answer = ''4''\<rparr>,
      \<lparr>qid = 31,
        options = [''0x0102'', ''0x0000'', ''0x4001'', ''0xf77c''],
        answer = ''0x0102''\<rparr>,
      \<lparr>qid = 32,
        options = [''0'', ''1'', ''3'', ''8''],
        answer = ''0''\<rparr>,
      \<lparr>qid = 33,
        options = [''60'', ''64'', ''84'', ''100''],
        answer = ''60''\<rparr>,
      \<lparr>qid = 34,
        options = [''True'', ''False''],
        answer = ''True''\<rparr>,
      \<lparr>qid = 35,
        options = [''4096'', ''2048'', ''1024'', ''8192''],
        answer = ''4096''\<rparr>,
      \<lparr>qid = 36,
        options = [''20 bytes'', ''24 bytes'', ''28 bytes'', ''32 bytes''],
        answer = ''20 bytes''\<rparr>,
      \<lparr>qid = 37,
        options = [''0'', ''1'', ''1000'', ''65535''],
        answer = ''0''\<rparr>,
      \<lparr>qid = 38,
        options = [''True'', ''False''],
        answer = ''False''\<rparr>,
      \<lparr>qid = 39,
        options = [''0'', ''1'', ''16'', ''32''],
        answer = ''0''\<rparr>,
      \<lparr>qid = 40,
        options = [''40'', ''48'', ''60'', ''72''],
        answer = ''72''\<rparr>,
      \<lparr>qid = 41,
        options = [''1'', ''3'', ''7'', ''8''],
        answer = ''8''\<rparr>,
      \<lparr>qid = 42,
        options = [''0x012c3d4e'', ''0x00000000'', ''0x01030308'', ''0x02040405''],
        answer = ''0x012c3d4e''\<rparr>,
      \<lparr>qid = 43,
        options = [''True'', ''False''],
        answer = ''True''\<rparr>,
      \<lparr>qid = 44,
        options = [''60'', ''72'', ''84'', ''92''],
        answer = ''92''\<rparr>,
      \<lparr>qid = 45,
        options = [''0x4e000000'', ''0x012c3d4e'', ''0x01030308'', ''0x02040405''],
        answer = ''0x4e000000''\<rparr>,
      \<lparr>qid = 46,
        options = [''8'', ''16'', ''28'', ''40''],
        answer = ''40''\<rparr>,
      \<lparr>qid = 47,
        options = [''0x0123'', ''0xa123'', ''0xbb23'', ''0xb123''],
        answer = ''0x0123''\<rparr>,
      \<lparr>qid = 48,
        options = [''True'', ''False''],
        answer = ''False''\<rparr>,
      \<lparr>qid = 49,
        options = [''0'', ''1'', ''2'', ''4''],
        answer = ''1''\<rparr>,
      \<lparr>qid = 50,
        options = [''IN (Internet)'', ''CH (Chaos)'', ''HS (Hesiod)'', ''ANY''],
        answer = ''IN (Internet)''\<rparr>
     ]"

definition TCPFlagsQuiz_questions :: "question list" where
  \<comment> \<open>\<open>self.questions\<close> of \<open>TCPFlagsQuiz.__init__\<close>\<close>
  "TCPFlagsQuiz_questions =
     [
      \<lparr>qid = 1,
        options = [''SYN'', ''FIN'', ''RST'', ''ACK''],
        answer = ''FIN''\<rparr>,
      \<lparr>qid = 2,
        options = [''True'', ''False''],
        answer = ''False''\<rparr>,
      \<lparr>qid = 3,
        options = [''Connection termination'', ''TCP SYN (start)'', ''Data transfer'', ''Connection reset''],
        answer = ''TCP SYN (start)''\<rparr>,
      \<lparr>qid = 4,
        options = [''0x01'', ''0x02'', ''0x04'', ''0x10''],
        answer = ''0x02''\<rparr>,
      \<lparr>qid = 5,
        options = [''SYN + ACK'', ''FIN + ACK'', ''RST + ACK'', ''PSH + ACK''],
        answer = ''RST + ACK''\<rparr>,
      \<lparr>qid = 6,
        options = [''PSH'', ''ACK'', ''RST'', ''SYN''],
        answer = ''RST''\<rparr>,
      \<lparr>qid = 7,
        options = [''SYN packets'', ''RST packets'', ''FIN packets'', ''No-flag packets''],
        answer = ''FIN packets''\<rparr>,
      \<lparr>qid = 8,
        options = [''SYN-only packets'', ''ACK-only packets'', ''SYN+ACK packets'', ''RST packets''],
        answer = ''SYN-only packets''\<rparr>,
      \<lparr>qid = 9,
        options = [''SYN packets'', ''ACK-only (data transfer)'', ''FIN packets'', ''RST packets''],
        answer = ''ACK-only (data transfer)''\<rparr>,
      \<lparr>qid = 10,
        options = [''0x02'', ''0x12'', ''0x10'', ''0x04''],
        answer = ''0x12''\<rparr>,
      \<lparr>qid = 11,
        options = [''True'', ''False''],
        answer = ''True''\<rparr>,
      \<lparr>qid = 12,
        options = [''Any SYN packet'', ''Any RST packet'', ''Any PSH packet'', ''Any ACK packet''],
        answer = ''Any PSH packet''\<rparr>,
      \<lparr>qid = 13,
        options = [''True'', ''False''],
        answer = ''True''\<rparr>,
      \<lparr>qid = 14,
        options = [''SYN+ACK'', ''FIN+ACK'', ''RST+ACK'', ''PSH+ACK''],
        answer = ''FIN+ACK''\<rparr>,
      \<lparr>qid = 15,
        options = [''0x01'', ''0x02'', ''0x04'', ''0x10''],
        answer = ''0x10''\<rparr>,
      \<lparr>qid = 16,
        options = [''SYN only'', ''PSH+ACK'', ''FIN+SYN'', ''RST only''],
        answer = ''PSH+ACK''\<rparr>,
      \<lparr>qid = 17,
        options = [''True'', ''False''],
        answer = ''True''\<rparr>,
      \<lparr>qid = 18,
        options = [''tcp[13] & 0x03 != 0'', ''tcp[13] & 0x12 != 0'', ''tcp[13] & 0x06 != 0'', ''tcp[13] & 0x11 != 0''],
        answer = ''tcp[13] & 0x03 != 0''\<rparr>,
      \<lparr>qid = 19,
        options = [''tcp[13] & 0x10 = 0'', ''tcp[13] & 0x10 != 0'', ''tcp[13] = 0x10'', ''tcp[13] != 0x10''],
        answer = ''tcp[13] & 0x10 = 0''\<rparr>,
      \<lparr>qid = 20,
        options = [''Only URG'', ''URG and any other flag'', ''Only RST'', ''RST and any other flag''],
        answer = ''URG and any other flag''\<rparr>,
      \<lparr>qid = 21,
        options = [''FIN+ACK'', ''SYN+ACK'', ''RST+ACK'', ''PSH+ACK''],
        answer = ''SYN+ACK''\<rparr>,
      \<lparr>qid = 22,
        options = [''True'', ''False''],
        answer = ''True''\<rparr>,
      \<lparr>qid = 23,
        options = [''SYN'', ''ACK'', ''URG'', ''PSH''],
        answer = ''URG''\<rparr>,
      \<lparr>qid = 24,
        options = [''All TCP packets'', ''Packets with no common flags'', ''Only ECE and CWR flags'', ''Invalid packets''],
        answer = ''Packets with no common flags''\<rparr>,
      \<lparr>qid = 25,
        options = [''tcp[13] = 0x02'', ''tcp[13] = 0x12'', ''tcp[13] = 0x10'', ''tcp[13] = 0x04''],
        answer = ''tcp[13] = 0x10''\<rparr>,
      \<lparr>qid = 26,
        options = [''SYN-only packets'', ''RST-only packets'', ''ACK-only packets'', ''FIN-only packets''],
        answer = ''RST-only packets''\<rparr>,
      \<lparr>qid = 27,
        options = [''tcp[13] = 0x08'', ''tcp[13] = 0x18'', ''tcp[13] & 0x18 = 0x08'', ''tcp[13] & 0x08 = 0x08''],
        answer = ''tcp[13] = 0x08''\<rparr>,
      \<lparr>qid = 28,
        options = [''SYN+ACK packets'', ''SYN-only packets'', ''ACK-only packets'', ''RST packets''],
        answer = ''SYN-only packets''\<rparr>,
      \<lparr>qid = 29,
        options = [''SYN+ACK+FIN'', ''PSH+ACK+FIN'', ''RST+ACK+FIN'', ''URG+ACK+FIN''],
        answer = ''PSH+ACK+FIN''\<rparr>,
      \<lparr>qid = 30,
        options = [''True'', ''False''],
        answer = ''True''\<rparr>,
      \<lparr>qid = 31,
        options = [''Only ACK packets'', ''Any packet with ACK set'', ''Only SYN packets'', ''Any packet with SYN set''],
        answer = ''Any packet with ACK set''\<rparr>,
      \<lparr>qid = 32,
        options = [''tcp[13] & 0x05 != 0'', ''tcp[13] & 0x06 != 0'', ''tcp[13] & 0x03 != 0'', ''tcp[13] & 0x14 != 0''],
        answer = ''tcp[13] & 0x05 != 0''\<rparr>,
      \<lparr>qid = 33,
        options = [''All TCP packets'', ''No TCP packets'', ''Packets with no flags set'', ''Invalid packets''],
        answer = ''Packets with no flags set''\<rparr>,
      \<lparr>qid = 34,
        options = [''SYN+ACK+RST'', ''PSH+ACK+RST'', ''FIN+ACK+RST'', ''URG+ACK+RST''],
        answer = ''PSH+ACK+RST''\<rparr>,
      \<lparr>qid = 35,
        options = [''ACK+SYN'', ''ACK+RST'', ''ACK+URG'', ''ACK+PSH''],
        answer = ''ACK+URG''\<rparr>,
      \<lparr>qid = 36,
        options = [''tcp[13] = 0x02'', ''tcp[13] = 0x12'', ''tcp[13] = 0x10'', ''tcp[13] = 0x04''],
        answer = ''tcp[13] = 0x12''\<rparr>,
      \<lparr>qid = 37,
        options = [''True'', ''False''],
        answer = ''False''\<rparr>,
      \<lparr>qid = 38,
        options = [''FIN+PSH+URG'', ''FIN+ACK+URG'', ''SYN+ACK+URG'', ''RST+ACK+URG''],
        answer = ''FIN+ACK+URG''\<rparr>,
      \<lparr>qid = 39,
        options = [''tcp[13] & 0x12 = 0x10'', ''tcp[13] & 0x12 = 0x02'', ''tcp[13] = 0x10'', ''tcp[13] = 0x12''],
        answer = ''tcp[13] & 0x12 = 0x10''\<rparr>,
      \<lparr>qid = 40,
        options = [''All TCP packets'', ''Packets with no FIN, SYN, RST, or ACK'', ''Only PSH packets'', ''Invalid packets''],
        answer = ''Packets with no FIN, SYN, RST, or ACK''\<rparr>,
      \<lparr>qid = 41,
        options = [''SYN'', ''ACK'', ''RST'', ''PSH''],
        answer = ''PSH''\<rparr>,
      \<lparr>qid = 42,
        options = [''All TCP packets'', ''Packets with at least one flag set'', ''Only ECE and CWR flags'', ''Invalid packets''],
        answer = ''Packets with at least one flag set''\<rparr>,
      \<lparr>qid = 43,
        options = [''True'', ''False''],
        answer = ''True''\<rparr>,
      \<lparr>qid = 44,
        options = [''tcp[13] = 0x01'', ''tcp[13] = 0x11'', ''tcp[13] & 0x11 = 0x01'', ''tcp[13] & 0x01 = 0x01''],
        answer = ''tcp[13] = 0x01''\<rparr>,
      \<lparr>qid = 45,
        options = [''FIN+SYN+RST'', ''FIN+SYN+PSH'', ''FIN+RST+PSH'', ''SYN+RST+PSH''],
        answer = ''FIN+SYN+RST''\<rparr>,
      \<lparr>qid = 46,
        options = [''tcp[13] & 0x28 != 0'', ''tcp[13] & 0x18 != 0'', ''tcp[13] & 0x30 != 0'', ''tcp[13] & 0x0C != 0''],
        answer = ''tcp[13] & 0x28 != 0''\<rparr>,
      \<lparr>qid = 47,
        options = [''SYN-only packets'', ''RST-only packets'', ''ACK-only packets'', ''FIN-only packets''],
        answer = ''RST-only packets''\<rparr>,
      \<lparr>qid = 48,
        options = [''True'', ''False''],
        answer = ''True''\<rparr>,
      \<lparr>qid = 49,
        options = [''SYN+ACK'', ''FIN+ACK'', ''RST+ACK'', ''PSH+ACK''],
        answer = ''RST+ACK''\<rparr>,
      \<lparr>qid = 50,
        options = [''SYN-only packets'', ''ACK-only packets'', ''SYN+ACK packets'', ''RST packets''],
        answer = ''SYN+ACK packets''\<rparr>
     ]"

section \<open>Selecting the questions of a session\<close>

subsection \<open>\<open>random.shuffle\<close> and slicing\<close>

text \<open>
  \<open>random.shuffle(x)\<close> runs \<open>for i in reversed(range(1, len(x)))\<close>, draws
  \<open>j = randbelow(i + 1)\<close> and swaps \<open>x[i]\<close> with \<open>x[j]\<close>. One shuffle asks for each
  bound once, so the source of randomness is a function from the bound to the draw; the
  draw is reduced modulo the bound, which is the contract of \<open>randbelow\<close>.
\<close>

fun shuffle_from :: "(nat \<Rightarrow> nat) \<Rightarrow> nat \<Rightarrow> 'a list \<Rightarrow> 'a list" where
  "shuffle_from randbelow 0 x = x"
| "shuffle_from randbelow (Suc i) x =
     (let j = randbelow (Suc i + 1) mod (Suc i + 1)
      in shuffle_from randbelow i (x[Suc i := x ! j, j := x ! Suc i]))"

definition random_shuffle :: "(nat \<Rightarrow> nat) \<Rightarrow> 'a list \<Rightarrow> 'a list" where
  "random_shuffle randbelow x = shuffle_from randbelow (length x - 1) x"

definition py_slice_to :: "'a list \<Rightarrow> int \<Rightarrow> 'a list" where
  \<comment> \<open>\<open>xs[:n]\<close>: a negative bound counts from the end\<close>
  "py_slice_to xs n =
     (if 0 \<le> n then take (nat n) xs else take (nat (int (length xs) + n)) xs)"

subsection \<open>The start of \<open>run_quiz\<close>\<close>

datatype notice = Starting_with int | Not_found int

fun find_start ::
  "question list \<Rightarrow> int \<Rightarrow> question option \<Rightarrow> question list
     \<Rightarrow> question option \<times> question list" where
  \<comment> \<open>\<open>for question in self.questions\<close>, with its two accumulators\<close>
  "find_start [] sid start_question remaining_questions = (start_question, remaining_questions)"
| "find_start (q # qs) sid start_question remaining_questions =
     (if qid q = sid then find_start qs sid (Some q) remaining_questions
      else find_start qs sid start_question (remaining_questions @ [q]))"

definition PacketQuiz_select ::
  "(nat \<Rightarrow> nat) \<Rightarrow> question list \<Rightarrow> int \<Rightarrow> int option \<Rightarrow> question list \<times> notice list" where
  \<comment> \<open>\<open>quiz_questions\<close> and the notices printed while it is chosen\<close>
  "PacketQuiz_select randbelow questions num_questions start_question_id =
     (case start_question_id of
        Some sid \<Rightarrow>
          (case find_start questions sid None [] of
             (Some start_question, remaining_questions) \<Rightarrow>
               ([start_question]
                  @ py_slice_to (random_shuffle randbelow remaining_questions) (num_questions - 1),
                [Starting_with sid])
           | (None, remaining_questions) \<Rightarrow>
               (py_slice_to (random_shuffle randbelow questions) num_questions,
                [Not_found sid]))
      | None \<Rightarrow> (py_slice_to (random_shuffle randbelow questions) num_questions, []))"

definition TCPFlagsQuiz_select :: "(nat \<Rightarrow> nat) \<Rightarrow> question list \<Rightarrow> int \<Rightarrow> question list" where
  "TCPFlagsQuiz_select randbelow questions num_questions =
     py_slice_to (random_shuffle randbelow questions) num_questions"

section \<open>Asking, scoring and the final report\<close>

definition resolve_option :: "string \<Rightarrow> string list \<Rightarrow> string" where
  \<comment> \<open>\<open>user_option\<close>, from the stripped input line and the question's options\<close>
  "resolve_option user_answer opts =
     (if py_upper user_answer \<in> set [''A'', ''B'', ''C'', ''D'']
      then (let index = int (of_char (hd (py_upper user_answer))) - 65
            in if 0 \<le> index \<and> index < int (length opts) then opts ! nat index else [])
      else user_answer)"

text \<open>
  Each question reads two lines: the answer and the line that ends the pause. Reading
  past the end of the input raises \<open>EOFError\<close>. Printing is not modelled.
\<close>

fun ask_questions ::
  "(string \<Rightarrow> string \<Rightarrow> error + bool) \<Rightarrow> question list \<Rightarrow> string list \<Rightarrow> int
     \<Rightarrow> error + int" where
  "ask_questions check [] inputs score = Inr score"
| "ask_questions check (q # qs) (line # pause # inputs) score =
     (case check (resolve_option (py_strip line) (options q)) (answer q) of
        Inl e \<Rightarrow> Inl e
      | Inr is_correct \<Rightarrow>
          ask_questions check qs inputs (if is_correct then score + 1 else score))"
| "ask_questions check (q # qs) inputs score = Inl EOFError"

record report =
  shown_score :: int
  shown_total :: int
  shown_percent :: rat

definition final_report :: "int \<Rightarrow> int \<Rightarrow> error + report" where
  \<comment> \<open>the last \<open>print\<close>: \<open>score/num_questions\<close> and \<open>score/num_questions*100\<close>, before
      the percentage is rounded to one decimal\<close>
  "final_report score num_questions =
     (if num_questions = 0 then Inl ZeroDivisionError
      else Inr \<lparr>shown_score = score, shown_total = num_questions,
                shown_percent = of_int score / of_int num_questions * 100\<rparr>)"

definition TCPFlagsQuiz_run_quiz ::
  "(nat \<Rightarrow> nat) \<Rightarrow> question list \<Rightarrow> int \<Rightarrow> string list
     \<Rightarrow> error + question list \<times> report" where
  \<comment> \<open>returns \<open>quiz_questions\<close> with what the last \<open>print\<close> shows\<close>
  "TCPFlagsQuiz_run_quiz randbelow questions num_questions inputs =
     (let quiz_questions = TCPFlagsQuiz_select randbelow questions num_questions
      in case ask_questions TCPFlagsQuiz_check_answer quiz_questions inputs 0 of
           Inl e \<Rightarrow> Inl e
         | Inr score \<Rightarrow>
             (case final_report score num_questions of
                Inl e \<Rightarrow> Inl e
              | Inr r \<Rightarrow> Inr (quiz_questions, r)))"

definition PacketQuiz_run_quiz ::
  "(nat \<Rightarrow> nat) \<Rightarrow> question list \<Rightarrow> int \<Rightarrow> int option \<Rightarrow> string list
     \<Rightarrow> error + question list \<times> report" where
  "PacketQuiz_run_quiz randbelow questions num_questions start_question_id inputs =
     (let quiz_questions =
            fst (PacketQuiz_select randbelow questions num_questions start_question_id)
      in case ask_questions PacketQuiz_check_answer quiz_questions inputs 0 of
           Inl e \<Rightarrow> Inl e
         | Inr score \<Rightarrow>
             (case final_report score num_questions of
                Inl e \<Rightarrow> Inl e
              | Inr r \<Rightarrow> Inr (quiz_questions, r)))"

section \<open>The hex dump\<close>

definition HIGHLIGHT_COLOR :: string where
  "HIGHLIGHT_COLOR = CHR 0x1B # ''[1;32m''"

definition RESET_COLOR :: string where
  "RESET_COLOR = CHR 0x1B # ''[0m''"

definition hex_char :: "nat \<Rightarrow> char" where
  "hex_char d = ''0123456789abcdef'' ! d"

function to_hex :: "nat \<Rightarrow> string" where
  \<comment> \<open>the format \<open>x\<close>\<close>
  "to_hex n = (if n < 16 then [hex_char n] else to_hex (n div 16) @ [hex_char (n mod 16)])"
  by pat_completeness auto
termination
  by (relation "measure id") auto

declare to_hex.simps [simp del]

definition fmt_04x :: "nat \<Rightarrow> string" where
  \<comment> \<open>the format \<open>04x\<close>: zeros on the left up to width 4\<close>
  "fmt_04x n = replicate (4 - length (to_hex n)) (CHR ''0'') @ to_hex n"

definition py_range :: "nat \<Rightarrow> nat \<Rightarrow> nat list" where
  \<comment> \<open>\<open>range(0, stop, step)\<close> for a positive step\<close>
  "py_range stop step = map (\<lambda>k. k * step) [0..<(stop + step - 1) div step]"

definition formatted_bytes :: "nat \<Rightarrow> string \<Rightarrow> int option \<Rightarrow> int option \<Rightarrow> string list" where
  \<comment> \<open>the inner loop, for the chunk that starts at character \<open>i\<close>\<close>
  "formatted_bytes i chunk offset num_bytes =
     map (\<lambda>j.
            let byte_pos = (i + j) div 2;
                byte = take 2 (drop j chunk)
            in case (offset, num_bytes) of
                 (Some off, Some nb) \<Rightarrow>
                   if off \<le> int byte_pos \<and> int byte_pos < off + nb
                   then HIGHLIGHT_COLOR @ byte @ RESET_COLOR
                   else byte
               | _ \<Rightarrow> byte)
         (py_range (length chunk) 2)"

definition formatted_lines :: "string \<Rightarrow> int option \<Rightarrow> int option \<Rightarrow> string list" where
  \<comment> \<open>the outer loop\<close>
  "formatted_lines hex_string offset num_bytes =
     map (\<lambda>i.
            let chunk = take 32 (drop i hex_string);
                line_number = fmt_04x (i div 2);
                formatted_line = py_join '' '' (formatted_bytes i chunk offset num_bytes)
            in line_number @ ''  '' @ formatted_line)
         (py_range (length hex_string) 32)"

definition format_hex_dump :: "string \<Rightarrow> int option \<Rightarrow> int option \<Rightarrow> string" where
  "format_hex_dump hex_string offset num_bytes =
     py_join [CHR 0x0A] (formatted_lines hex_string offset num_bytes)"

section \<open>Notions used to state the properties\<close>

text \<open>
  Normalisation is what both matchers do to their two arguments first. The comparison
  classes are written after the specification: the boolean shortcuts, equal base-16
  values, and membership of both strings in one entry of the flag table.
\<close>

definition normalise :: "string \<Rightarrow> string" where
  "normalise s = py_strip (py_lower s)"

definition expand_tf :: "string \<Rightarrow> string" where
  "expand_tf s = (if s = ''t'' then ''true'' else if s = ''f'' then ''false'' else s)"

definition same_hex_value :: "string \<Rightarrow> string \<Rightarrow> bool" where
  "same_hex_value u c =
     (case (py_int16 c, py_int16 u) of (Inr a, Inr b) \<Rightarrow> a = b | _ \<Rightarrow> False)"

definition hex_class :: "string \<Rightarrow> string \<Rightarrow> bool" where
  "hex_class u c = (startswith c ''0x'' \<and> startswith u ''0x'' \<and> same_hex_value u c)"

definition flag_class :: "string \<Rightarrow> string \<Rightarrow> bool" where
  "flag_class u c = (\<exists>e \<in> set flag_patterns. c \<in> set (snd e) \<and> u \<in> set (snd e))"

text \<open>
  A script of input lines in which every question is answered with the letter of the
  option that is its canonical answer, each answer followed by an empty line for the
  pause; and the data-integrity condition under which that letter exists.
\<close>

fun position :: "'a \<Rightarrow> 'a list \<Rightarrow> nat" where
  "position x [] = 0"
| "position x (y # ys) = (if x = y then 0 else Suc (position x ys))"

definition answer_letter :: "question \<Rightarrow> string" where
  "answer_letter q = [''ABCD'' ! position (answer q) (options q)]"

definition perfect_script :: "question list \<Rightarrow> string list" where
  "perfect_script qs = concat (map (\<lambda>q. [answer_letter q, []]) qs)"

definition well_formed :: "question \<Rightarrow> bool" where
  "well_formed q = (answer q \<in> set (options q) \<and> length (options q) \<le> 4)"

text \<open>
  Reading a rendered dump back. A hex string has hexadecimal digits only. The dump is cut
  at line feeds; the label of a line is what precedes its first space; its byte groups are
  what follows the two spaces, cut at single spaces; a group is marked when it starts with
  the highlight sequence, and unmarking removes that sequence and the reset sequence.
  \<open>rendered_group\<close> and \<open>rendered_line\<close> say what group \<open>p\<close> and line \<open>k\<close> of a dump
  are to look like.
\<close>

definition is_hex_string :: "string \<Rightarrow> bool" where
  "is_hex_string h = list_all (\<lambda>c. digit_value c \<noteq> None) h"

definition byte_at :: "string \<Rightarrow> nat \<Rightarrow> string" where
  "byte_at h p = take 2 (drop (2 * p) h)"

definition in_range :: "int option \<Rightarrow> int option \<Rightarrow> nat \<Rightarrow> bool" where
  "in_range offset num_bytes p =
     (case (offset, num_bytes) of
        (Some off, Some nb) \<Rightarrow> off \<le> int p \<and> int p < off + nb
      | _ \<Rightarrow> False)"

definition rendered_group :: "string \<Rightarrow> int option \<Rightarrow> int option \<Rightarrow> nat \<Rightarrow> string" where
  "rendered_group h offset num_bytes p =
     (if in_range offset num_bytes p then HIGHLIGHT_COLOR @ byte_at h p @ RESET_COLOR
      else byte_at h p)"

definition rendered_line :: "string \<Rightarrow> int option \<Rightarrow> int option \<Rightarrow> nat \<Rightarrow> string" where
  "rendered_line h offset num_bytes k =
     fmt_04x (16 * k) @ ''  '' @
     py_join '' '' (map (rendered_group h offset num_bytes)
                      [16 * k..<min (16 * k + 16) ((length h + 1) div 2)])"

fun split_on :: "char \<Rightarrow> string \<Rightarrow> string list" where
  "split_on sep [] = [[]]"
| "split_on sep (c # cs) =
     (if c = sep then [] # split_on sep cs
      else (case split_on sep cs of p # ps \<Rightarrow> (c # p) # ps | [] \<Rightarrow> [[c]]))"

definition dump_lines :: "string \<Rightarrow> string list" where
  "dump_lines out = (if out = [] then [] else split_on (CHR 0x0A) out)"

definition line_label :: "string \<Rightarrow> string" where
  "line_label line = takeWhile (\<lambda>c. c \<noteq> CHR '' '') line"

definition line_groups :: "string \<Rightarrow> string list" where
  "line_groups line = split_on (CHR '' '') (drop 2 (dropWhile (\<lambda>c. c \<noteq> CHR '' '') line))"

definition dump_groups :: "string \<Rightarrow> string list" where
  "dump_groups out = concat (map line_groups (dump_lines out))"

definition is_marked :: "string \<Rightarrow> bool" where
  "is_marked g = startswith g HIGHLIGHT_COLOR"

definition unmark :: "string \<Rightarrow> string" where
  "unmark g =
     (if is_marked g
      then take (length g - length HIGHLIGHT_COLOR - length RESET_COLOR)
             (drop (length HIGHLIGHT_COLOR) g)
      else g)"

definition is_lower_hex :: "char \<Rightarrow> bool" where
  "is_lower_hex c = (c \<in> set ''0123456789abcdef'')"

text \<open>
  A 42-byte Ethernet frame (an ARP request), on which the renderer is run.
\<close>

definition sample_hex :: string where
  "sample_hex =
     ''ffffffffffff001a2b3c4d5e08060001080006040001001a2b3c4d5ec0a80102000000000000c0a80101''"

section \<open>Properties of the matchers\<close>

lemma py_int16_cases: "py_int16 s = Inl ValueError \<or> (\<exists>a. py_int16 s = Inr a)"
  by (simp add: py_int16_def Let_def split: prod.splits option.splits)

lemma hex_equal_total: "\<exists>b. hex_equal c u = Inr b"
  using py_int16_cases[of c] py_int16_cases[of u] by (auto simp: hex_equal_def)

lemma hex_equal_eq: "hex_equal c u = Inr (same_hex_value u c)"
  using py_int16_cases[of c] py_int16_cases[of u]
  by (auto simp: hex_equal_def same_hex_value_def)

lemma flag_loop_iff:
  "flag_loop ps c u = (\<exists>e \<in> set ps. c \<in> set (snd e) \<and> u \<in> set (snd e))"
  by (induction ps c u rule: flag_loop.induct) auto

lemma flag_hex_unique:
  assumes "e \<in> set flag_patterns" "c \<in> set (snd e)" "u \<in> set (snd e)"
    "startswith c ''0x''" "startswith u ''0x''"
  shows "u = c"
  using assms by (auto simp: flag_patterns_def startswith_def)

lemma flag_not_bool:
  assumes "e \<in> set flag_patterns" "c \<in> set (snd e)"
  shows "c \<noteq> ''true'' \<and> c \<noteq> ''false''"
  using assms by (auto simp: flag_patterns_def)

lemma not_0x_bool: "\<not> startswith ''true'' ''0x''" "\<not> startswith ''false'' ''0x''"
  by (simp_all add: startswith_def)

lemma PacketQuiz_check_answer_norm:
  "PacketQuiz_check_answer u c =
     (let a = normalise u; b = normalise c
      in if a = b then Inr True
         else if (b = ''true'' \<or> b = ''false'')
                 \<and> (a = ''true'' \<or> a = ''false'' \<or> a = ''t'' \<or> a = ''f'')
         then Inr (expand_tf a = b)
         else if startswith b ''0x'' \<and> startswith a ''0x'' then hex_equal b a
         else Inr False)"
  by (simp add: PacketQuiz_check_answer_def normalise_def expand_tf_def Let_def)

lemma TCPFlagsQuiz_check_answer_norm:
  "TCPFlagsQuiz_check_answer u c =
     (let a = normalise u; b = normalise c
      in if a = b then Inr True
         else if (b = ''true'' \<or> b = ''false'')
                 \<and> (a = ''true'' \<or> a = ''false'' \<or> a = ''t'' \<or> a = ''f'')
         then Inr (expand_tf a = b)
         else if startswith b ''0x'' \<and> startswith a ''0x'' then hex_equal b a
         else Inr (flag_loop flag_patterns b a))"
  by (simp add: TCPFlagsQuiz_check_answer_def normalise_def expand_tf_def Let_def)

lemma PacketQuiz_bool:
  assumes "b = ''true'' \<or> b = ''false''" "b = normalise c"
  shows "PacketQuiz_check_answer u c = Inr (expand_tf (normalise u) = b)"
  using assms not_0x_bool unfolding PacketQuiz_check_answer_norm Let_def assms(2)[symmetric]
  by (auto simp: expand_tf_def)

lemma TCPFlagsQuiz_bool:
  assumes "b = ''true'' \<or> b = ''false''" "b = normalise c"
  shows "TCPFlagsQuiz_check_answer u c = Inr (expand_tf (normalise u) = b)"
proof -
  have "\<not> flag_loop flag_patterns b a" for a
    unfolding flag_loop_iff using flag_not_bool assms(1) by blast
  then show ?thesis
    using assms not_0x_bool unfolding TCPFlagsQuiz_check_answer_norm Let_def assms(2)[symmetric]
    by (auto simp: expand_tf_def)
qed

lemma PacketQuiz_nonbool:
  assumes "b \<noteq> ''true''" "b \<noteq> ''false''" "b = normalise c"
  shows "PacketQuiz_check_answer u c = Inr (normalise u = b \<or> hex_class (normalise u) b)"
  using assms unfolding PacketQuiz_check_answer_norm Let_def assms(3)[symmetric]
  by (auto simp: hex_class_def hex_equal_eq)

lemma TCPFlagsQuiz_nonbool:
  assumes "b \<noteq> ''true''" "b \<noteq> ''false''" "b = normalise c"
  shows "TCPFlagsQuiz_check_answer u c =
     Inr (normalise u = b \<or> hex_class (normalise u) b \<or> flag_class (normalise u) b)"
proof -
  define a where "a = normalise u"
  have fl: "flag_loop flag_patterns b a = flag_class a b"
    by (simp add: flag_loop_iff flag_class_def)
  have hx: "startswith b ''0x'' \<Longrightarrow> startswith a ''0x'' \<Longrightarrow> a \<noteq> b \<Longrightarrow> \<not> flag_class a b"
    unfolding flag_class_def using flag_hex_unique by blast
  have nh: "\<not> (startswith b ''0x'' \<and> startswith a ''0x'') \<Longrightarrow> \<not> hex_class a b"
    by (auto simp: hex_class_def)
  have hc: "startswith b ''0x'' \<Longrightarrow> startswith a ''0x'' \<Longrightarrow> hex_equal b a = Inr (hex_class a b)"
    by (simp add: hex_class_def hex_equal_eq)
  show ?thesis
    using assms(1,2) fl hx nh hc
    unfolding TCPFlagsQuiz_check_answer_norm Let_def assms(3)[symmetric] a_def[symmetric]
    by auto
qed

text \<open>
  Claim C9. When the normalised canonical answer is \<open>true\<close> or \<open>false\<close>, both matchers
  return whether the normalised input, with \<open>t\<close> and \<open>f\<close> expanded to \<open>true\<close> and
  \<open>false\<close>, equals it. For any other canonical answer the result is decided by string
  equality, the hex class and (for the flag quiz) the flag table alone, with no expansion.
  Both arguments enter only through their trimmed, lower-case forms.
\<close>

theorem boolean_class_exactly_for_true_false:
  "(normalise c \<in> {''true'', ''false''} \<longrightarrow>
      PacketQuiz_check_answer u c = Inr (expand_tf (normalise u) = normalise c) \<and>
      TCPFlagsQuiz_check_answer u c = Inr (expand_tf (normalise u) = normalise c)) \<and>
   (normalise c \<notin> {''true'', ''false''} \<longrightarrow>
      PacketQuiz_check_answer u c =
        Inr (normalise u = normalise c \<or> hex_class (normalise u) (normalise c)) \<and>
      TCPFlagsQuiz_check_answer u c =
        Inr (normalise u = normalise c \<or> hex_class (normalise u) (normalise c)
             \<or> flag_class (normalise u) (normalise c)))"
  using PacketQuiz_bool[of "normalise c" c u] TCPFlagsQuiz_bool[of "normalise c" c u]
    PacketQuiz_nonbool[of "normalise c" c u] TCPFlagsQuiz_nonbool[of "normalise c" c u]
  by simp


theorem boolean_class_exactly_for_true_false_witness:
  "normalise ''True'' \<in> {''true'', ''false''} \<and>
   PacketQuiz_check_answer ''t'' ''True'' = Inr True \<and>
   TCPFlagsQuiz_check_answer ''t'' ''True'' = Inr True \<and>
   PacketQuiz_check_answer ''f'' ''True'' = Inr False \<and>
   TCPFlagsQuiz_check_answer ''f'' ''True'' = Inr False \<and>
   normalise ''SYN'' \<notin> {''true'', ''false''} \<and>
   PacketQuiz_check_answer ''t'' ''SYN'' = Inr False"
proof -
  have c: "normalise ''True'' = ''true''" "normalise ''SYN'' = ''syn''"
    by code_simp+
  have t: "expand_tf (normalise ''t'') = ''true''" "expand_tf (normalise ''f'') = ''false''"
    "normalise ''t'' = ''t''" "normalise ''f'' = ''f''" "\<not> hex_class ''t'' ''syn''"
    "expand_tf ''t'' = ''true''" "expand_tf ''f'' = ''false''"
    by code_simp+
  show ?thesis
    using boolean_class_exactly_for_true_false [of "''True''" "''t''"]
      boolean_class_exactly_for_true_false [of "''True''" "''f''"]
      boolean_class_exactly_for_true_false [of "''SYN''" "''t''"]
    by (simp add: c t)
qed

text \<open>
  Claim C8. In the flag quiz, two inputs whose normalised forms both belong to one entry
  of the flag table match, whatever the representation (name, hex byte, \<open>tcp-\<close> filter
  name) and whichever listed order of a combination was typed.
\<close>

theorem flag_table_same_entry:
  assumes "e \<in> set flag_patterns"
    and "normalise u \<in> set (snd e)" and "normalise c \<in> set (snd e)"
  shows "TCPFlagsQuiz_check_answer u c = Inr True"
proof (cases "normalise u = normalise c")
  case True
  then show ?thesis by (simp add: TCPFlagsQuiz_check_answer_norm)
next
  case False
  have nb: "normalise c \<noteq> ''true''" "normalise c \<noteq> ''false''"
    using flag_not_bool[OF assms(1,3)] by simp_all
  have nh: "\<not> (startswith (normalise c) ''0x'' \<and> startswith (normalise u) ''0x'')"
    using flag_hex_unique[OF assms(1,3,2)] False by blast
  have fl: "flag_loop flag_patterns (normalise c) (normalise u)"
    unfolding flag_loop_iff using assms by blast
  show ?thesis
    using False nb nh fl unfolding TCPFlagsQuiz_check_answer_norm Let_def by auto
qed

theorem flag_table_same_entry_witness:
  "(''syn+ack'', [''syn+ack'', ''ack+syn'', ''0x12'', ''tcp-syn|tcp-ack'']) \<in> set flag_patterns \<and>
   (''rst'', [''rst'', ''0x04'', ''tcp-rst'']) \<in> set flag_patterns \<and>
   TCPFlagsQuiz_check_answer ''ack+syn'' ''syn+ack'' = Inr True \<and>
   TCPFlagsQuiz_check_answer ''0x04'' ''RST'' = Inr True \<and>
   TCPFlagsQuiz_check_answer '' TCP-RST '' ''0x04'' = Inr True"
proof -
  have e: "(''syn+ack'', [''syn+ack'', ''ack+syn'', ''0x12'', ''tcp-syn|tcp-ack'']) \<in> set flag_patterns"
    "(''rst'', [''rst'', ''0x04'', ''tcp-rst'']) \<in> set flag_patterns"
    by (simp_all add: flag_patterns_def)
  have n: "normalise ''ack+syn'' = ''ack+syn''" "normalise ''syn+ack'' = ''syn+ack''"
    "normalise ''0x04'' = ''0x04''" "normalise ''RST'' = ''rst''"
    "normalise '' TCP-RST '' = ''tcp-rst''"
    by code_simp+
  show ?thesis
    using flag_table_same_entry [OF e(1), of "''ack+syn''" "''syn+ack''"]
      flag_table_same_entry [OF e(2), of "''0x04''" "''RST''"]
      flag_table_same_entry [OF e(2), of "'' TCP-RST ''" "''0x04''"] e
    by (simp add: n)
qed

text \<open>
  Claim C7, as amended. When both normalised inputs begin with \<open>0x\<close>, each matcher returns
  true exactly when the two normalised strings are identical or both parse as base-16
  integers of equal value; a malformed literal makes the answer false, and no input makes
  either matcher raise.
\<close>

theorem hex_class_or_identical:
  "(startswith (normalise u) ''0x'' \<and> startswith (normalise c) ''0x'' \<longrightarrow>
      PacketQuiz_check_answer u c =
        Inr (normalise u = normalise c \<or> same_hex_value (normalise u) (normalise c)) \<and>
      TCPFlagsQuiz_check_answer u c =
        Inr (normalise u = normalise c \<or> same_hex_value (normalise u) (normalise c))) \<and>
   (\<exists>b. PacketQuiz_check_answer u c = Inr b) \<and>
   (\<exists>b. TCPFlagsQuiz_check_answer u c = Inr b)"
proof -
  have nb: "startswith (normalise c) ''0x'' \<Longrightarrow>
      normalise c \<noteq> ''true'' \<and> normalise c \<noteq> ''false''"
    using not_0x_bool by auto
  have 1: "startswith (normalise u) ''0x'' \<and> startswith (normalise c) ''0x'' \<longrightarrow>
      PacketQuiz_check_answer u c =
        Inr (normalise u = normalise c \<or> same_hex_value (normalise u) (normalise c))"
    using nb unfolding PacketQuiz_check_answer_norm Let_def
    by (auto simp: hex_equal_eq)
  have 2: "startswith (normalise u) ''0x'' \<and> startswith (normalise c) ''0x'' \<longrightarrow>
      TCPFlagsQuiz_check_answer u c =
        Inr (normalise u = normalise c \<or> same_hex_value (normalise u) (normalise c))"
    using nb unfolding TCPFlagsQuiz_check_answer_norm Let_def
    by (auto simp: hex_equal_eq)
  have 3: "\<exists>b. PacketQuiz_check_answer u c = Inr b"
    unfolding PacketQuiz_check_answer_norm Let_def by (auto simp: hex_equal_eq)
  have 4: "\<exists>b. TCPFlagsQuiz_check_answer u c = Inr b"
    unfolding TCPFlagsQuiz_check_answer_norm Let_def by (auto simp: hex_equal_eq)
  from 1 2 3 4 show ?thesis by blast
qed

theorem hex_class_or_identical_witness:
  "startswith (normalise ''0x02'') ''0x'' \<and> startswith (normalise ''0x2'') ''0x'' \<and>
   startswith (normalise ''0xZZ'') ''0x'' \<and>
   PacketQuiz_check_answer ''0x02'' ''0x2'' = Inr True \<and>
   TCPFlagsQuiz_check_answer ''0x02'' ''0x2'' = Inr True \<and>
   PacketQuiz_check_answer ''0xZZ'' ''0x02'' = Inr False \<and>
   TCPFlagsQuiz_check_answer ''0xZZ'' ''0x02'' = Inr False \<and>
   PacketQuiz_check_answer ''0x806'' ''0x0806'' = Inr True"
proof -
  have n: "normalise ''0x02'' = ''0x02''" "normalise ''0x2'' = ''0x2''"
    "normalise ''0xZZ'' = ''0xzz''" "normalise ''0x806'' = ''0x806''"
    "normalise ''0x0806'' = ''0x0806''"
    by code_simp+
  have v: "same_hex_value ''0x02'' ''0x2''" "\<not> same_hex_value ''0xzz'' ''0x02''"
    "same_hex_value ''0x806'' ''0x0806''"
    by code_simp+
  have s: "startswith ''0x02'' ''0x''" "startswith ''0x2'' ''0x''" "startswith ''0xzz'' ''0x''"
     "startswith ''0x806'' ''0x''" "startswith ''0x0806'' ''0x''"
    by (simp_all add: startswith_def)
  show ?thesis
    using hex_class_or_identical [of "''0x02''" "''0x2''"]
      hex_class_or_identical [of "''0xZZ''" "''0x02''"]
      hex_class_or_identical [of "''0x806''" "''0x0806''"]
    by (simp add: n v s)
qed

text \<open>
  The answer of question 5 of the packet bank begins with \<open>0x\<close> and is not a base-16
  literal; typed as it stands it is accepted by string equality, so a match does not
  imply that both sides parse.
\<close>

theorem hex_iff_parse_counterexample:
  "startswith (normalise ''0x0001 (Request)'') ''0x'' \<and>
   answer (PacketQuiz_questions ! 4) = ''0x0001 (Request)'' \<and>
   PacketQuiz_check_answer ''0x0001 (Request)'' ''0x0001 (Request)'' = Inr True \<and>
   py_int16 (normalise ''0x0001 (Request)'') = Inl ValueError \<and>
   \<not> same_hex_value (normalise ''0x0001 (Request)'') (normalise ''0x0001 (Request)'')"
  by code_simp

section \<open>Properties of the selection\<close>

lemma mset_shuffle_from:
  "i < length x \<Longrightarrow> mset (shuffle_from rb i x) = mset x"
proof (induction i arbitrary: x)
  case 0
  then show ?case by simp
next
  case (Suc i)
  define j where "j = rb (Suc i + 1) mod (Suc i + 1)"
  have "j < Suc i + 1" unfolding j_def by (rule mod_less_divisor) simp
  then have j: "j < length x" using Suc.prems by linarith
  have sw: "mset (x[Suc i := x ! j, j := x ! Suc i]) = mset x"
    using mset_swap[OF j Suc.prems] by simp
  have "mset (shuffle_from rb i (x[Suc i := x ! j, j := x ! Suc i])) =
        mset (x[Suc i := x ! j, j := x ! Suc i])"
    using Suc.prems by (intro Suc.IH) simp
  then show ?case using sw by (simp add: j_def Let_def)
qed

lemma mset_random_shuffle: "mset (random_shuffle rb x) = mset x"
  by (cases x) (simp_all add: random_shuffle_def mset_shuffle_from)

lemma length_random_shuffle: "length (random_shuffle rb x) = length x"
  using mset_random_shuffle[of rb x] by (metis size_mset)

lemma set_random_shuffle: "set (random_shuffle rb x) = set x"
  using mset_random_shuffle[of rb x] by (metis set_mset_mset)

lemma distinct_map_random_shuffle:
  "distinct (map f (random_shuffle rb x)) = distinct (map f x)"
proof -
  have "mset (map f (random_shuffle rb x)) = mset (map f x)"
    by (simp add: mset_random_shuffle)
  then show ?thesis by (rule mset_eq_imp_distinct_iff)
qed

lemma find_start_eq:
  "find_start qs sid st rem =
     (case filter (\<lambda>q. qid q = sid) qs of [] \<Rightarrow> st | m # ms \<Rightarrow> Some (last (m # ms)),
      rem @ filter (\<lambda>q. qid q \<noteq> sid) qs)"
  by (induction qs arbitrary: st rem) (auto split: list.splits)

lemma length_PacketQuiz_questions: "length PacketQuiz_questions = 50"
  by (simp add: PacketQuiz_questions_def)

lemma length_TCPFlagsQuiz_questions: "length TCPFlagsQuiz_questions = 50"
  by (simp add: TCPFlagsQuiz_questions_def)

lemma ids_PacketQuiz_questions: "map qid PacketQuiz_questions = map int [1..<51]"
  by (simp add: PacketQuiz_questions_def upt_conv_Cons)

lemma ids_TCPFlagsQuiz_questions: "map qid TCPFlagsQuiz_questions = map int [1..<51]"
  by (simp add: TCPFlagsQuiz_questions_def upt_conv_Cons)

lemma distinct_ids_PacketQuiz: "distinct (map qid PacketQuiz_questions)"
  unfolding ids_PacketQuiz_questions by (simp add: distinct_map)

lemma distinct_ids_TCPFlagsQuiz: "distinct (map qid TCPFlagsQuiz_questions)"
  unfolding ids_TCPFlagsQuiz_questions by (simp add: distinct_map)


lemma py_slice_to_nonneg: "0 \<le> n \<Longrightarrow> py_slice_to xs n = take (nat n) xs"
  by (simp add: py_slice_to_def)

lemma unpinned_props:
  assumes "1 \<le> N" "distinct (map qid qs)"
  shows "length (py_slice_to (random_shuffle rb qs) N) = min (nat N) (length qs)"
    and "distinct (map qid (py_slice_to (random_shuffle rb qs) N))"
    and "set (py_slice_to (random_shuffle rb qs) N) \<subseteq> set qs"
proof -
  have sl: "py_slice_to (random_shuffle rb qs) N = take (nat N) (random_shuffle rb qs)"
    using assms(1) by (simp add: py_slice_to_nonneg)
  show "length (py_slice_to (random_shuffle rb qs) N) = min (nat N) (length qs)"
    by (simp add: sl length_random_shuffle min.commute)
  have "distinct (map qid (random_shuffle rb qs))"
    using assms(2) by (simp add: distinct_map_random_shuffle)
  then show "distinct (map qid (py_slice_to (random_shuffle rb qs) N))"
    unfolding sl take_map[symmetric] by (rule distinct_take)
  show "set (py_slice_to (random_shuffle rb qs) N) \<subseteq> set qs"
    unfolding sl using set_take_subset[of "nat N" "random_shuffle rb qs"]
    by (simp add: set_random_shuffle)
qed

text \<open>
  Claim C3. For every requested count \<open>N \<ge> 1\<close> and every outcome of the shuffle, the
  unpinned path of either quiz selects exactly \<open>min(N, 50)\<close> questions of its
  50-question bank, with pairwise distinct ids, all taken from the bank.
\<close>

theorem unpinned_selection:
  assumes "1 \<le> N"
  shows "length (TCPFlagsQuiz_select rb TCPFlagsQuiz_questions N) = min (nat N) 50 \<and>
         distinct (map qid (TCPFlagsQuiz_select rb TCPFlagsQuiz_questions N)) \<and>
         set (TCPFlagsQuiz_select rb TCPFlagsQuiz_questions N) \<subseteq> set TCPFlagsQuiz_questions \<and>
         length (fst (PacketQuiz_select rb PacketQuiz_questions N None)) = min (nat N) 50 \<and>
         distinct (map qid (fst (PacketQuiz_select rb PacketQuiz_questions N None))) \<and>
         set (fst (PacketQuiz_select rb PacketQuiz_questions N None)) \<subseteq> set PacketQuiz_questions \<and>
         snd (PacketQuiz_select rb PacketQuiz_questions N None) = []"
  using unpinned_props[OF assms distinct_ids_TCPFlagsQuiz, of rb]
    unpinned_props[OF assms distinct_ids_PacketQuiz, of rb]
  by (simp add: TCPFlagsQuiz_select_def PacketQuiz_select_def
      length_TCPFlagsQuiz_questions length_PacketQuiz_questions)

theorem unpinned_selection_witness:
  "(1::int) \<le> 10 \<and> (1::int) \<le> 60 \<and>
   length (TCPFlagsQuiz_select (\<lambda>n. 7) TCPFlagsQuiz_questions 10) = 10 \<and>
   distinct (map qid (TCPFlagsQuiz_select (\<lambda>n. 7) TCPFlagsQuiz_questions 10)) \<and>
   length (TCPFlagsQuiz_select (\<lambda>n. 7) TCPFlagsQuiz_questions 60) = 50 \<and>
   length (fst (PacketQuiz_select (\<lambda>n. 7) PacketQuiz_questions 10 None)) = 10 \<and>
   distinct (map qid (fst (PacketQuiz_select (\<lambda>n. 7) PacketQuiz_questions 10 None))) \<and>
   length (fst (PacketQuiz_select (\<lambda>n. 7) PacketQuiz_questions 60 None)) = 50"
  using unpinned_selection [of 10 "\<lambda>n. 7"] unpinned_selection [of 60 "\<lambda>n. 7"]
  by simp

lemma filter_id_single:
  fixes qs :: "question list"
  assumes "distinct (map qid qs)" "q \<in> set qs"
  shows "filter (\<lambda>r. qid r = qid q) qs = [q]"
  using assms
proof (induction qs)
  case Nil
  then show ?case by simp
next
  case (Cons a qs)
  show ?case
  proof (cases "a = q")
    case True
    then have "qid q \<notin> qid ` set qs" using Cons.prems(1) by simp
    then have "\<forall>r \<in> set qs. qid r \<noteq> qid q" by (metis imageI)
    then have "filter (\<lambda>r. qid r = qid q) qs = []" by (simp add: filter_empty_conv)
    then show ?thesis using True by simp
  next
    case False
    then have in_rest: "q \<in> set qs" using Cons.prems(2) by simp
    have "qid a \<notin> qid ` set qs" using Cons.prems(1) by simp
    then have ne: "qid a \<noteq> qid q" using in_rest by (metis imageI)
    have "distinct (map qid qs)" using Cons.prems(1) by simp
    then have "filter (\<lambda>r. qid r = qid q) qs = [q]" using in_rest by (rule Cons.IH)
    then show ?thesis using ne by simp
  qed
qed

lemma pinned_found:
  assumes "distinct (map qid qs)" "q \<in> set qs"
  shows "find_start qs (qid q) None [] = (Some q, filter (\<lambda>r. qid r \<noteq> qid q) qs)"
  by (simp add: find_start_eq filter_id_single[OF assms])

lemma pinned_not_found:
  assumes "\<forall>q \<in> set qs. qid q \<noteq> sid"
  shows "fst (find_start qs sid None []) = None"
proof -
  have "filter (\<lambda>q. qid q = sid) qs = []" using assms by (simp add: filter_empty_conv)
  then show ?thesis by (simp add: find_start_eq)
qed

lemma pinned_select_found:
  assumes "distinct (map qid qs)" "q \<in> set qs"
  shows "PacketQuiz_select rb qs N (Some (qid q)) =
    (q # py_slice_to (random_shuffle rb (filter (\<lambda>r. qid r \<noteq> qid q) qs)) (N - 1),
     [Starting_with (qid q)])"
  by (simp add: PacketQuiz_select_def pinned_found[OF assms])

lemma pinned_select_not_found:
  assumes "\<forall>q \<in> set qs. qid q \<noteq> sid"
  shows "PacketQuiz_select rb qs N (Some sid) =
    (fst (PacketQuiz_select rb qs N None), [Not_found sid])"
  using pinned_not_found[OF assms]
  by (cases "find_start qs sid None []") (simp add: PacketQuiz_select_def)

lemma pinned_rest_distinct:
  assumes "distinct (map qid qs)"
  shows "distinct (map qid (q # take k (random_shuffle rb (filter (\<lambda>r. qid r \<noteq> qid q) qs))))"
proof -
  let ?rem = "filter (\<lambda>r. qid r \<noteq> qid q) qs"
  have d: "distinct (map qid ?rem)" using assms by (simp add: distinct_map_filter)
  then have "distinct (map qid (random_shuffle rb ?rem))"
    by (simp add: distinct_map_random_shuffle)
  then have 1: "distinct (map qid (take k (random_shuffle rb ?rem)))"
    unfolding take_map[symmetric] by (rule distinct_take)
  have "set (take k (random_shuffle rb ?rem)) \<subseteq> set ?rem"
    using set_take_subset[of k "random_shuffle rb ?rem"] by (simp add: set_random_shuffle)
  then have 2: "qid q \<notin> qid ` set (take k (random_shuffle rb ?rem))" by auto
  from 1 2 show ?thesis by simp
qed

text \<open>
  Claim C4. For every requested count \<open>N \<ge> 1\<close>: when the pinned id is the id of a bank
  question, the selected list is not empty, its first element has that id, no id occurs
  twice, and the notice names the pinned id; when no bank question has the pinned id,
  the selection is that of the unpinned path and the not-found notice is emitted.
\<close>

theorem pinned_selection:
  assumes "1 \<le> N"
  shows "((\<exists>q \<in> set PacketQuiz_questions. qid q = sid) \<longrightarrow>
            fst (PacketQuiz_select rb PacketQuiz_questions N (Some sid)) \<noteq> [] \<and>
            qid (hd (fst (PacketQuiz_select rb PacketQuiz_questions N (Some sid)))) = sid \<and>
            distinct (map qid (fst (PacketQuiz_select rb PacketQuiz_questions N (Some sid)))) \<and>
            snd (PacketQuiz_select rb PacketQuiz_questions N (Some sid)) = [Starting_with sid]) \<and>
         ((\<forall>q \<in> set PacketQuiz_questions. qid q \<noteq> sid) \<longrightarrow>
            fst (PacketQuiz_select rb PacketQuiz_questions N (Some sid)) =
              fst (PacketQuiz_select rb PacketQuiz_questions N None) \<and>
            snd (PacketQuiz_select rb PacketQuiz_questions N (Some sid)) = [Not_found sid])"
proof (intro conjI impI)
  assume "\<exists>q \<in> set PacketQuiz_questions. qid q = sid"
  then obtain q where q: "q \<in> set PacketQuiz_questions" "qid q = sid" by blast
  have sel: "PacketQuiz_select rb PacketQuiz_questions N (Some sid) =
    (q # take (nat (N - 1))
           (random_shuffle rb (filter (\<lambda>r. qid r \<noteq> qid q) PacketQuiz_questions)),
     [Starting_with sid])"
    using pinned_select_found[OF distinct_ids_PacketQuiz q(1), of rb N] assms q(2)
    by (simp add: py_slice_to_nonneg)
  show "fst (PacketQuiz_select rb PacketQuiz_questions N (Some sid)) \<noteq> []"
    by (simp add: sel)
  show "qid (hd (fst (PacketQuiz_select rb PacketQuiz_questions N (Some sid)))) = sid"
    by (simp add: sel q(2))
  show "distinct (map qid (fst (PacketQuiz_select rb PacketQuiz_questions N (Some sid))))"
    unfolding sel fst_conv by (rule pinned_rest_distinct[OF distinct_ids_PacketQuiz])
  show "snd (PacketQuiz_select rb PacketQuiz_questions N (Some sid)) = [Starting_with sid]"
    by (simp add: sel)
next
  assume nf: "\<forall>q \<in> set PacketQuiz_questions. qid q \<noteq> sid"
  show "fst (PacketQuiz_select rb PacketQuiz_questions N (Some sid)) =
        fst (PacketQuiz_select rb PacketQuiz_questions N None)"
    by (simp add: pinned_select_not_found[OF nf])
  show "snd (PacketQuiz_select rb PacketQuiz_questions N (Some sid)) = [Not_found sid]"
    by (simp add: pinned_select_not_found[OF nf])
qed

lemma resolves_iff:
  "(\<exists>q \<in> set PacketQuiz_questions. qid q = sid) \<longleftrightarrow> 1 \<le> sid \<and> sid \<le> 50"
proof -
  have "(\<exists>q \<in> set PacketQuiz_questions. qid q = sid) \<longleftrightarrow> sid \<in> set (map qid PacketQuiz_questions)"
    by auto
  also have "\<dots> \<longleftrightarrow> sid \<in> int ` {1..<51}"
    unfolding ids_PacketQuiz_questions by simp
  also have "\<dots> \<longleftrightarrow> 1 \<le> sid \<and> sid \<le> 50"
  proof
    assume "sid \<in> int ` {1..<51}"
    then show "1 \<le> sid \<and> sid \<le> 50" by auto
  next
    assume "1 \<le> sid \<and> sid \<le> 50"
    then have "nat sid \<in> {1..<51}" "sid = int (nat sid)" by auto
    then show "sid \<in> int ` {1..<51}" by (metis imageI)
  qed
  finally show ?thesis .
qed

theorem pinned_selection_witness:
  "(1::int) \<le> 10 \<and>
   5 \<in> set (map qid PacketQuiz_questions) \<and>
   fst (PacketQuiz_select (\<lambda>n. 7) PacketQuiz_questions 10 (Some 5)) \<noteq> [] \<and>
   qid (hd (fst (PacketQuiz_select (\<lambda>n. 7) PacketQuiz_questions 10 (Some 5)))) = 5 \<and>
   distinct (map qid (fst (PacketQuiz_select (\<lambda>n. 7) PacketQuiz_questions 10 (Some 5)))) \<and>
   snd (PacketQuiz_select (\<lambda>n. 7) PacketQuiz_questions 10 (Some 5)) = [Starting_with 5] \<and>
   51 \<notin> set (map qid PacketQuiz_questions) \<and>
   fst (PacketQuiz_select (\<lambda>n. 7) PacketQuiz_questions 10 (Some 51)) =
     fst (PacketQuiz_select (\<lambda>n. 7) PacketQuiz_questions 10 None) \<and>
   snd (PacketQuiz_select (\<lambda>n. 7) PacketQuiz_questions 10 (Some 51)) = [Not_found 51]"
proof -
  have a: "\<exists>q \<in> set PacketQuiz_questions. qid q = 5"
    by (simp add: resolves_iff)
  have b: "\<forall>q \<in> set PacketQuiz_questions. qid q \<noteq> 51"
    using resolves_iff[of 51] by auto
  have a': "5 \<in> set (map qid PacketQuiz_questions)"
    using a by force
  have b': "51 \<notin> set (map qid PacketQuiz_questions)"
    using b by force
  show ?thesis
    using pinned_selection [of 10 5 "\<lambda>n. 7"] pinned_selection [of 10 51 "\<lambda>n. 7"] a b a' b'
    by simp
qed

lemma py_slice_to_minus_one: "py_slice_to xs (- 1) = butlast xs"
  by (simp add: py_slice_to_def butlast_conv_take nat_diff_distrib')

lemma filter_same_id:
  fixes qs :: "question list"
  assumes "distinct (map qid qs)" "q \<in> set qs"
  shows "length (filter (\<lambda>r. qid r \<noteq> qid q) qs) = length qs - 1"
proof -
  have "length (filter (\<lambda>r. qid r = qid q) qs) + length (filter (\<lambda>r. \<not> qid r = qid q) qs)
      = length qs"
    by (rule sum_length_filter_compl)
  then show ?thesis by (simp add: filter_id_single[OF assms])
qed

lemma pinned_zero:
  assumes "distinct (map qid qs)" "q \<in> set qs"
  shows "fst (PacketQuiz_select rb qs 0 (Some (qid q))) =
           q # butlast (random_shuffle rb (filter (\<lambda>r. qid r \<noteq> qid q) qs))"
    and "length (fst (PacketQuiz_select rb qs 0 (Some (qid q)))) = 1 + (length qs - 1 - 1)"
proof -
  show 1: "fst (PacketQuiz_select rb qs 0 (Some (qid q))) =
           q # butlast (random_shuffle rb (filter (\<lambda>r. qid r \<noteq> qid q) qs))"
    by (simp add: pinned_select_found[OF assms] py_slice_to_minus_one)
  show "length (fst (PacketQuiz_select rb qs 0 (Some (qid q)))) = 1 + (length qs - 1 - 1)"
    unfolding 1 by (simp add: length_random_shuffle filter_same_id[OF assms])
qed

text \<open>
  Claim C10, as amended. With requested count 0 and a pinned id that resolves, the selected
  list is the pinned question followed by all but the last of the 49 shuffled remaining
  questions: 49 questions, one fewer than the bank, and not zero.
\<close>

theorem pinned_with_count_zero:
  assumes "\<exists>q \<in> set PacketQuiz_questions. qid q = sid"
  shows "\<exists>q \<in> set PacketQuiz_questions. qid q = sid \<and>
           fst (PacketQuiz_select rb PacketQuiz_questions 0 (Some sid)) =
             q # butlast (random_shuffle rb
                            (filter (\<lambda>r. qid r \<noteq> sid) PacketQuiz_questions)) \<and>
           length (filter (\<lambda>r. qid r \<noteq> sid) PacketQuiz_questions) = 49 \<and>
           length (fst (PacketQuiz_select rb PacketQuiz_questions 0 (Some sid))) = 49 \<and>
           length PacketQuiz_questions = 50"
proof -
  from assms obtain q where q: "q \<in> set PacketQuiz_questions" "qid q = sid" by blast
  have "fst (PacketQuiz_select rb PacketQuiz_questions 0 (Some sid)) =
             q # butlast (random_shuffle rb
                            (filter (\<lambda>r. qid r \<noteq> sid) PacketQuiz_questions))"
    using pinned_zero(1)[OF distinct_ids_PacketQuiz q(1), of rb] q(2) by simp
  moreover have "length (filter (\<lambda>r. qid r \<noteq> sid) PacketQuiz_questions) = 49"
    using filter_same_id[OF distinct_ids_PacketQuiz q(1)] q(2)
    by (simp add: length_PacketQuiz_questions)
  moreover have "length (fst (PacketQuiz_select rb PacketQuiz_questions 0 (Some sid))) = 49"
    using pinned_zero(2)[OF distinct_ids_PacketQuiz q(1), of rb] q(2)
    by (simp add: length_PacketQuiz_questions)
  ultimately show ?thesis using q length_PacketQuiz_questions by blast
qed

theorem pinned_with_count_zero_witness:
  "5 \<in> set (map qid PacketQuiz_questions) \<and>
   length (fst (PacketQuiz_select (\<lambda>n. 0) PacketQuiz_questions 0 (Some 5))) = 49 \<and>
   qid (hd (fst (PacketQuiz_select (\<lambda>n. 0) PacketQuiz_questions 0 (Some 5)))) = 5"
proof -
  have a: "\<exists>q \<in> set PacketQuiz_questions. qid q = 5"
    by (simp add: resolves_iff)
  have a': "5 \<in> set (map qid PacketQuiz_questions)"
    using a by force
  show ?thesis
    using pinned_with_count_zero [OF a, of "\<lambda>n. 0"] a' by auto
qed

text \<open>
  With count 0 and pinned id 5 the selected list is shorter than the bank.
\<close>

theorem pinned_with_count_zero_counterexample:
  "length (fst (PacketQuiz_select (\<lambda>n. 0) PacketQuiz_questions 0 (Some 5)))
     \<noteq> length PacketQuiz_questions"
proof -
  have "\<exists>q \<in> set PacketQuiz_questions. qid q = 5"
    by (simp add: resolves_iff)
  then obtain q where q: "q \<in> set PacketQuiz_questions" "qid q = 5" by blast
  show ?thesis
    using pinned_zero(2)[OF distinct_ids_PacketQuiz q(1), of "\<lambda>n. 0"] q(2)
    by (simp add: length_PacketQuiz_questions)
qed

section \<open>Properties of a whole session\<close>

lemma position_less: "x \<in> set xs \<Longrightarrow> position x xs < length xs"
  by (induction xs) auto

lemma nth_position: "x \<in> set xs \<Longrightarrow> xs ! position x xs = x"
  by (induction xs) auto

lemma resolve_letters:
  "resolve_option (py_strip ''A'') opts = (if 0 < length opts then opts ! 0 else [])"
  "resolve_option (py_strip ''B'') opts = (if 1 < length opts then opts ! 1 else [])"
  "resolve_option (py_strip ''C'') opts = (if 2 < length opts then opts ! 2 else [])"
  "resolve_option (py_strip ''D'') opts = (if 3 < length opts then opts ! 3 else [])"
  by (simp_all add: resolve_option_def py_strip_def is_space_def py_upper_def upper_char_def)

lemma resolve_answer_letter:
  assumes "well_formed q"
  shows "resolve_option (py_strip (answer_letter q)) (options q) = answer q"
proof -
  define p where "p = position (answer q) (options q)"
  have p: "p < length (options q)" "options q ! p = answer q"
    using assms by (simp_all add: well_formed_def p_def position_less nth_position)
  then have "p < 4" using assms by (simp add: well_formed_def)
  then consider "p = 0" | "p = 1" | "p = 2" | "p = 3" by linarith
  then show ?thesis
    using p unfolding answer_letter_def p_def[symmetric]
    by cases (simp_all add: resolve_letters)
qed

lemma well_formed_flags: "list_all well_formed TCPFlagsQuiz_questions"
  by (simp add: TCPFlagsQuiz_questions_def well_formed_def)

lemma well_formed_packet: "list_all well_formed PacketQuiz_questions"
  by (simp add: PacketQuiz_questions_def well_formed_def)

lemma shuffle_from_identity:
  "i < length x \<Longrightarrow> shuffle_from (\<lambda>n. n - 1) i x = x"
  by (induction i arbitrary: x) (simp_all add: Let_def)

lemma random_shuffle_identity: "random_shuffle (\<lambda>n. n - 1) x = x"
proof (cases x)
  case Nil
  then show ?thesis by (simp add: random_shuffle_def)
next
  case (Cons a list)
  then have "length x - 1 < length x" by simp
  then show ?thesis unfolding random_shuffle_def by (rule shuffle_from_identity)
qed

lemma ask_by_letter:
  assumes "\<And>x. check x x = Inr True"
  shows "list_all well_formed qs
   \<Longrightarrow> ask_questions check qs (perfect_script qs) s = Inr (s + int (length qs))"
  by (induction qs arbitrary: s) (simp_all add: assms perfect_script_def resolve_answer_letter)

lemma check_self: "PacketQuiz_check_answer x x = Inr True" "TCPFlagsQuiz_check_answer x x = Inr True"
  by (simp_all add: PacketQuiz_check_answer_def TCPFlagsQuiz_check_answer_def)

text \<open>
  Claim C1 at a concrete session. The requested count is 60, the shuffle leaves the bank
  in order and every one of the 50 selected questions is answered correctly; the final
  report of either quiz shows 50 out of 60 and 250/3 percent, not 50 out of the 50
  questions selected.
\<close>

theorem report_total_is_requested_count:
  "TCPFlagsQuiz_run_quiz (\<lambda>n. n - 1) TCPFlagsQuiz_questions 60
      (perfect_script TCPFlagsQuiz_questions) =
     Inr (TCPFlagsQuiz_questions,
          \<lparr>shown_score = 50, shown_total = 60, shown_percent = 250 / 3\<rparr>) \<and>
   PacketQuiz_run_quiz (\<lambda>n. n - 1) PacketQuiz_questions 60 None
      (perfect_script PacketQuiz_questions) =
     Inr (PacketQuiz_questions,
          \<lparr>shown_score = 50, shown_total = 60, shown_percent = 250 / 3\<rparr>) \<and>
   length TCPFlagsQuiz_questions = 50 \<and> length PacketQuiz_questions = 50"
proof -
  have f: "TCPFlagsQuiz_select (\<lambda>n. n - 1) TCPFlagsQuiz_questions 60 = TCPFlagsQuiz_questions"
    unfolding TCPFlagsQuiz_select_def random_shuffle_identity
    by (simp add: py_slice_to_def length_TCPFlagsQuiz_questions)
  have p: "fst (PacketQuiz_select (\<lambda>n. n - 1) PacketQuiz_questions 60 None) = PacketQuiz_questions"
    unfolding PacketQuiz_select_def random_shuffle_identity
    by (simp add: py_slice_to_def length_PacketQuiz_questions)
  have af: "ask_questions TCPFlagsQuiz_check_answer TCPFlagsQuiz_questions
              (perfect_script TCPFlagsQuiz_questions) 0 = Inr 50"
    using ask_by_letter[of TCPFlagsQuiz_check_answer, OF check_self(2) well_formed_flags, of 0]
    by (simp add: length_TCPFlagsQuiz_questions)
  have ap: "ask_questions PacketQuiz_check_answer PacketQuiz_questions
              (perfect_script PacketQuiz_questions) 0 = Inr 50"
    using ask_by_letter[of PacketQuiz_check_answer, OF check_self(1) well_formed_packet, of 0]
    by (simp add: length_PacketQuiz_questions)
  show ?thesis
    unfolding TCPFlagsQuiz_run_quiz_def PacketQuiz_run_quiz_def f p Let_def af ap
    by (simp add: final_report_def length_TCPFlagsQuiz_questions length_PacketQuiz_questions)
qed

section \<open>Properties of letter resolution\<close>

lemma normalise_empty: "normalise [] = []"
  by (simp add: normalise_def py_strip_def py_lower_def)

lemma empty_not_flag: "\<not> flag_loop flag_patterns b []"
  by (simp add: flag_loop_iff flag_patterns_def)

lemma check_empty:
  "PacketQuiz_check_answer [] c = Inr (normalise c = [])"
  "TCPFlagsQuiz_check_answer [] c = Inr (normalise c = [])"
  unfolding PacketQuiz_check_answer_norm TCPFlagsQuiz_check_answer_norm Let_def normalise_empty
  by (auto simp: startswith_def empty_not_flag)

lemma upper_char_nonempty: "upper_char c \<noteq> []"
  by (simp add: upper_char_def Let_def)

lemma py_upper_single:
  assumes "length (py_upper s) = 1"
  shows "\<exists>c. s = [c]"
proof (cases s)
  case Nil
  then show ?thesis using assms by (simp add: py_upper_def)
next
  case (Cons c t)
  show ?thesis
  proof (cases t)
    case Nil
    then show ?thesis using Cons by simp
  next
    case (Cons d r)
    have "length (upper_char c) \<ge> 1" "length (upper_char d) \<ge> 1"
      using upper_char_nonempty by (simp_all add: Suc_leI)
    then have "length (py_upper s) \<ge> 2"
      using \<open>s = c # t\<close> Cons by (simp add: py_upper_def)
    then show ?thesis using assms by simp
  qed
qed

lemma char_codes:
  "char_of (65::nat) = CHR ''A''" "char_of (66::nat) = CHR ''B''"
  "char_of (67::nat) = CHR ''C''" "char_of (68::nat) = CHR ''D''"
  "char_of (97::nat) = CHR ''a''" "char_of (98::nat) = CHR ''b''"
  "char_of (99::nat) = CHR ''c''" "char_of (100::nat) = CHR ''d''"
  by code_simp+

lemma py_upper_letter:
  assumes "py_upper s \<in> set [''A'', ''B'', ''C'', ''D'']"
  shows "s \<in> set [''A'', ''B'', ''C'', ''D'', ''a'', ''b'', ''c'', ''d'']"
proof -
  from assms have "length (py_upper s) = 1" by auto
  then obtain c where s: "s = [c]" using py_upper_single by blast
  define n where "n = (of_char c :: nat)"
  have c: "c = char_of n" by (simp add: n_def)
  have n256: "n < 256" by (simp add: n_def)
  have u: "upper_char c \<in> set [''A'', ''B'', ''C'', ''D'']"
    using assms s by (simp add: py_upper_def)
  consider (low) "(97 \<le> n \<and> n \<le> 122) \<or> (224 \<le> n \<and> n \<le> 254 \<and> n \<noteq> 247)"
    | (ss) "\<not> ((97 \<le> n \<and> n \<le> 122) \<or> (224 \<le> n \<and> n \<le> 254 \<and> n \<noteq> 247))" "n = 223"
    | (other) "\<not> ((97 \<le> n \<and> n \<le> 122) \<or> (224 \<le> n \<and> n \<le> 254 \<and> n \<noteq> 247))" "n \<noteq> 223"
    by blast
  then show ?thesis
  proof cases
    case low
    then have "upper_char c = [char_of (n - 32)]"
      by (auto simp: upper_char_def n_def Let_def)
    with u obtain x where x: "char_of (n - 32) = x"
      "x \<in> {CHR ''A'', CHR ''B'', CHR ''C'', CHR ''D''}" by simp
    from x(2) have "(of_char x :: nat) \<in> {65, 66, 67, 68}" by auto
    moreover have "(of_char x :: nat) = (n - 32) mod 256"
      unfolding x(1)[symmetric] by simp
    moreover have "(n - 32) mod 256 = n - 32" using n256 by simp
    ultimately have "n - 32 \<in> {65, 66, 67, 68}" by simp
    then have "n = 97 \<or> n = 98 \<or> n = 99 \<or> n = 100" using low by auto
    then show ?thesis using c s char_codes by auto
  next
    case ss
    then have "upper_char c = ''SS''" by (auto simp: upper_char_def n_def Let_def)
    with u show ?thesis by simp
  next
    case other
    then have "upper_char c = [c]" by (auto simp: upper_char_def n_def Let_def)
    with u show ?thesis using s by auto
  qed
qed

lemma resolve_letters_upper:
  "resolve_option ''A'' opts = (if 0 < length opts then opts ! 0 else [])"
  "resolve_option ''B'' opts = (if 1 < length opts then opts ! 1 else [])"
  "resolve_option ''C'' opts = (if 2 < length opts then opts ! 2 else [])"
  "resolve_option ''D'' opts = (if 3 < length opts then opts ! 3 else [])"
  by (simp_all add: resolve_option_def py_upper_def upper_char_def)

lemma resolve_letters_lower:
  "resolve_option ''a'' opts = (if 0 < length opts then opts ! 0 else [])"
  "resolve_option ''b'' opts = (if 1 < length opts then opts ! 1 else [])"
  "resolve_option ''c'' opts = (if 2 < length opts then opts ! 2 else [])"
  "resolve_option ''d'' opts = (if 3 < length opts then opts ! 3 else [])"
  by (simp_all add: resolve_option_def py_upper_def upper_char_def char_codes)

lemma resolve_other:
  assumes "s \<notin> set [''A'', ''B'', ''C'', ''D'', ''a'', ''b'', ''c'', ''d'']"
  shows "resolve_option s opts = s"
proof -
  have "py_upper s \<notin> set [''A'', ''B'', ''C'', ''D'']"
    using assms py_upper_letter by blast
  then show ?thesis unfolding resolve_option_def by (simp only: if_False)
qed

text \<open>
  Claim C2, as amended. A single letter A to D, in either case, whose position lies inside
  the option list is replaced by the option at that position; a letter A to D whose
  position lies outside the list is replaced by the empty string, which either matcher
  rejects unless the canonical answer is blank; every other input, a letter beyond D
  included, reaches the matcher unchanged.
\<close>

theorem letter_resolution:
  "(k < 4 \<longrightarrow>
      resolve_option [''ABCD'' ! k] opts = (if k < length opts then opts ! k else []) \<and>
      resolve_option [''abcd'' ! k] opts = (if k < length opts then opts ! k else [])) \<and>
   (s \<notin> set [''A'', ''B'', ''C'', ''D'', ''a'', ''b'', ''c'', ''d''] \<longrightarrow>
      resolve_option s opts = s) \<and>
   PacketQuiz_check_answer [] c = Inr (normalise c = []) \<and>
   TCPFlagsQuiz_check_answer [] c = Inr (normalise c = [])"
proof -
  have 1: "k < 4 \<longrightarrow>
      resolve_option [''ABCD'' ! k] opts = (if k < length opts then opts ! k else []) \<and>
      resolve_option [''abcd'' ! k] opts = (if k < length opts then opts ! k else [])"
  proof
    assume "k < 4"
    then consider "k = 0" | "k = 1" | "k = 2" | "k = 3" by linarith
    then show "resolve_option [''ABCD'' ! k] opts = (if k < length opts then opts ! k else []) \<and>
      resolve_option [''abcd'' ! k] opts = (if k < length opts then opts ! k else [])"
      by cases (simp_all add: resolve_letters_upper resolve_letters_lower)
  qed
  show ?thesis
    using 1 resolve_other[of s opts] check_empty[of c] by blast
qed

theorem letter_resolution_witness:
  "(1::nat) < 4 \<and> (2::nat) < 4 \<and>
   options (PacketQuiz_questions ! 1) = [''0x0800'', ''0x0806'', ''0x8035'', ''0x86DD''] \<and>
   resolve_option ''B'' [''0x0800'', ''0x0806'', ''0x8035'', ''0x86DD''] = ''0x0806'' \<and>
   resolve_option ''c'' [''0x0800'', ''0x0806'', ''0x8035'', ''0x86DD''] = ''0x8035'' \<and>
   resolve_option ''C'' [''True'', ''False''] = [] \<and>
   ''0x806'' \<notin> set [''A'', ''B'', ''C'', ''D'', ''a'', ''b'', ''c'', ''d''] \<and>
   resolve_option ''0x806'' [''0x0800'', ''0x0806'', ''0x8035'', ''0x86DD''] = ''0x806'' \<and>
   resolve_option ''E'' [''True'', ''False''] = ''E''"
proof -
  have o: "options (PacketQuiz_questions ! 1) = [''0x0800'', ''0x0806'', ''0x8035'', ''0x86DD'']"
    by (simp add: PacketQuiz_questions_def)
  show ?thesis
    using letter_resolution [of 1 "[''0x0800'', ''0x0806'', ''0x8035'', ''0x86DD'']" "''0x806''"]
      letter_resolution [of 2 "[''0x0800'', ''0x0806'', ''0x8035'', ''0x86DD'']" "''E''"]
      letter_resolution [of 2 "[''True'', ''False'']" "''E''"] o
    by simp
qed

text \<open>
  Question 4 of the packet bank has two options; the letter C is not passed on as it was
  typed, the empty string is.
\<close>

theorem letter_out_of_range_counterexample:
  "options (PacketQuiz_questions ! 3) = [''True'', ''False''] \<and>
   resolve_option ''C'' (options (PacketQuiz_questions ! 3)) = [] \<and>
   resolve_option ''C'' (options (PacketQuiz_questions ! 3)) \<noteq> ''C''"
proof -
  have o: "options (PacketQuiz_questions ! 3) = [''True'', ''False'']"
    by (simp add: PacketQuiz_questions_def)
  show ?thesis by (simp add: o resolve_letters_upper)
qed

section \<open>Properties of the hex dump\<close>

subsection \<open>Joining and splitting\<close>

lemma split_on_no_sep: "sep \<notin> set x \<Longrightarrow> split_on sep x = [x]"
  by (induction x) auto

lemma split_on_append:
  "sep \<notin> set x \<Longrightarrow> split_on sep (x @ sep # rest) = x # split_on sep rest"
  by (induction x) auto

lemma split_on_py_join:
  assumes "xs \<noteq> []" "\<forall>x \<in> set xs. sep \<notin> set x"
  shows "split_on sep (py_join [sep] xs) = xs"
  using assms
proof (induction "[sep]" xs rule: py_join.induct)
  case 1
  then show ?case by simp
next
  case (2 x)
  then show ?case by (simp add: split_on_no_sep)
next
  case (3 x y ys)
  then show ?case by (simp add: split_on_append)
qed

lemma py_join_nonempty: "xs \<noteq> [] \<Longrightarrow> \<forall>x \<in> set xs. x \<noteq> [] \<Longrightarrow> py_join sep xs \<noteq> []"
  by (induction sep xs rule: py_join.induct) auto

lemma set_py_join: "set (py_join sep xs) \<subseteq> set sep \<union> \<Union> (set ` set xs)"
  by (induction sep xs rule: py_join.induct) auto

lemma upt_split: "a \<le> b \<Longrightarrow> b \<le> c \<Longrightarrow> [a..<b] @ [b..<c] = [a..<c]"
  by (metis le_Suc_ex upt_add_eq_append)

lemma concat_ranges:
  "concat (map (\<lambda>k. [16 * k..<min (16 * k + 16) B]) [0..<n]) = [0..<min (16 * n) B]"
proof (induction n)
  case 0
  then show ?case by simp
next
  case (Suc n)
  show ?case
  proof (cases "16 * n \<le> B")
    case True
    then have "[0..<min (16 * n) B] @ [16 * n..<min (16 * n + 16) B] = [0..<min (16 * n + 16) B]"
      using upt_split[of 0 "16 * n" "min (16 * n + 16) B"] by simp
    then show ?thesis using Suc by (simp add: add.commute)
  next
    case False
    then show ?thesis using Suc by simp
  qed
qed

subsection \<open>The loops of \<open>format_hex_dump\<close>\<close>

lemma formatted_bytes_chunk:
  "formatted_bytes (32 * k) (take 32 (drop (32 * k) h)) offset num_bytes =
     map (rendered_group h offset num_bytes) [16 * k..<min (16 * k + 16) ((length h + 1) div 2)]"
proof (rule nth_equalityI)
  show len: "length (formatted_bytes (32 * k) (take 32 (drop (32 * k) h)) offset num_bytes) =
    length (map (rendered_group h offset num_bytes)
              [16 * k..<min (16 * k + 16) ((length h + 1) div 2)])"
    by (simp add: formatted_bytes_def py_range_def)
next
  fix m
  assume "m < length (formatted_bytes (32 * k) (take 32 (drop (32 * k) h)) offset num_bytes)"
  then have m: "m < (min 32 (length h - 32 * k) + 1) div 2"
    by (simp add: formatted_bytes_def py_range_def)
  then have m16: "m < 16" by linarith
  have m2: "16 * k + m < min (16 * k + 16) ((length h + 1) div 2)" using m by linarith
  have pos: "(32 * k + m * 2) div 2 = 16 * k + m" by simp
  have byte: "take 2 (drop (m * 2) (take 32 (drop (32 * k) h))) = byte_at h (16 * k + m)"
    using m16 by (simp add: drop_take byte_at_def min_def add.commute mult.commute)
  have "formatted_bytes (32 * k) (take 32 (drop (32 * k) h)) offset num_bytes ! m =
        rendered_group h offset num_bytes (16 * k + m)"
    using m unfolding formatted_bytes_def py_range_def
    by (simp add: pos byte rendered_group_def in_range_def Let_def split: option.splits)
  moreover have "m < min (16 * k + 16) ((length h + 1) div 2) - 16 * k"
    using m2 by linarith
  then have "m < length [16 * k..<min (16 * k + 16) ((length h + 1) div 2)]"
    by (simp only: length_upt)
  moreover have "[16 * k..<min (16 * k + 16) ((length h + 1) div 2)] ! m = 16 * k + m"
    using m2 by (rule nth_upt)
  ultimately show "formatted_bytes (32 * k) (take 32 (drop (32 * k) h)) offset num_bytes ! m =
        map (rendered_group h offset num_bytes)
          [16 * k..<min (16 * k + 16) ((length h + 1) div 2)] ! m"
    by (simp only: nth_map)
qed

lemma formatted_lines_eq:
  "formatted_lines h offset num_bytes =
     map (rendered_line h offset num_bytes) [0..<(length h + 31) div 32]"
proof -
  have "(\<lambda>i. let chunk = take 32 (drop i h);
                line_number = fmt_04x (i div 2);
                formatted_line = py_join '' '' (formatted_bytes i chunk offset num_bytes)
            in line_number @ ''  '' @ formatted_line) (k * 32) =
        rendered_line h offset num_bytes k" for k
  proof -
    have "k * 32 = 32 * k" "(32 * k) div 2 = 16 * k" by simp_all
    then show ?thesis
      by (simp only: Let_def formatted_bytes_chunk rendered_line_def)
  qed
  then show ?thesis
    unfolding formatted_lines_def py_range_def by (simp add: comp_def add.commute)
qed

subsection \<open>Characters of the dump\<close>

lemma digit_value_special:
  "digit_value (CHR '' '') = None" "digit_value (CHR 0x0A) = None"
  by (simp_all add: digit_value_def)

lemma hex_string_chars:
  assumes "is_hex_string h"
  shows "CHR '' '' \<notin> set h" "CHR 0x0A \<notin> set h"
  using assms digit_value_special by (auto simp: is_hex_string_def list_all_iff)

lemma color_chars:
  "CHR '' '' \<notin> set HIGHLIGHT_COLOR" "CHR 0x0A \<notin> set HIGHLIGHT_COLOR"
  "CHR '' '' \<notin> set RESET_COLOR" "CHR 0x0A \<notin> set RESET_COLOR"
  by (simp_all add: HIGHLIGHT_COLOR_def RESET_COLOR_def)

lemma hex_char_lower: "d < 16 \<Longrightarrow> is_lower_hex (hex_char d)"
  unfolding is_lower_hex_def hex_char_def by (rule nth_mem) simp

lemma to_hex_lower: "list_all is_lower_hex (to_hex n)"
proof (induction n rule: to_hex.induct)
  case (1 n)
  show ?case
  proof (cases "n < 16")
    case True
    then show ?thesis by (subst to_hex.simps) (simp add: hex_char_lower)
  next
    case False
    then show ?thesis using 1 by (subst to_hex.simps) (simp add: hex_char_lower)
  qed
qed

lemma lower_hex_zero: "is_lower_hex (CHR ''0'')"
  by (simp add: is_lower_hex_def)

lemma fmt_04x_lower: "list_all is_lower_hex (fmt_04x n)"
  using to_hex_lower[of n] by (auto simp: fmt_04x_def list_all_iff lower_hex_zero)

lemma lower_hex_not_special:
  "is_lower_hex c \<Longrightarrow> c \<noteq> CHR '' '' \<and> c \<noteq> CHR 0x0A"
  by (auto simp: is_lower_hex_def)

lemma fmt_04x_chars: "CHR '' '' \<notin> set (fmt_04x n)" "CHR 0x0A \<notin> set (fmt_04x n)"
  using fmt_04x_lower[of n] lower_hex_not_special by (auto simp: list_all_iff)

lemma length_to_hex_pos: "0 < length (to_hex n)"
  by (subst to_hex.simps) simp

lemma length_to_hex_le: "n < 16 ^ m \<Longrightarrow> 0 < m \<Longrightarrow> length (to_hex n) \<le> m"
proof (induction n arbitrary: m rule: to_hex.induct)
  case (1 n)
  show ?case
  proof (cases "n < 16")
    case True
    then show ?thesis using "1.prems" by (subst to_hex.simps) simp
  next
    case False
    obtain m' where m': "m = Suc m'" using "1.prems"(2) by (cases m) auto
    have "m' \<noteq> 0" using False "1.prems"(1) m' by (cases m') auto
    moreover have "n div 16 < 16 ^ m'"
      using "1.prems"(1) m' by (simp add: less_mult_imp_div_less mult.commute)
    ultimately have "length (to_hex (n div 16)) \<le> m'"
      using "1.IH"[OF False, of m'] by simp
    then show ?thesis using False m' by (subst to_hex.simps) simp
  qed
qed

lemma length_fmt_04x: "4 \<le> length (fmt_04x n)"
  by (simp add: fmt_04x_def)

lemma length_fmt_04x_small: "n < 65536 \<Longrightarrow> length (fmt_04x n) = 4"
  using length_to_hex_le[of n 4] by (simp add: fmt_04x_def)

subsection \<open>Reading a label back\<close>

lemma digit_value_hex_char: "d < 16 \<Longrightarrow> digit_value (hex_char d) = Some d"
proof -
  have "list_all (\<lambda>d. digit_value (hex_char d) = Some d) [0..<16]"
    by code_simp
  moreover assume "d < 16"
  ultimately show ?thesis by (simp add: list_all_iff)
qed

lemma hex_digits_all_digits:
  "list_all (\<lambda>c. digit_value c \<noteq> None) s \<Longrightarrow>
   hex_digits acc s = Some (foldl (\<lambda>a c. 16 * a + the (digit_value c)) acc s)"
  by (induction acc s rule: hex_digits.induct) auto

lemma hex_literal_all_digits:
  assumes "list_all (\<lambda>c. digit_value c \<noteq> None) s" "s \<noteq> []"
  shows "hex_literal s = Some (foldl (\<lambda>a c. 16 * a + the (digit_value c)) 0 s)"
proof (cases s)
  case Nil
  then show ?thesis using assms by simp
next
  case (Cons c cs)
  then show ?thesis using assms
    by (auto simp: hex_literal_def hex_digits_all_digits)
qed

lemma foldl_to_hex: "foldl (\<lambda>a c. 16 * a + the (digit_value c)) 0 (to_hex n) = n"
proof (induction n rule: to_hex.induct)
  case (1 n)
  show ?case
  proof (cases "n < 16")
    case True
    then show ?thesis by (subst to_hex.simps) (simp add: digit_value_hex_char)
  next
    case False
    then show ?thesis using 1
      by (subst to_hex.simps) (simp add: digit_value_hex_char)
  qed
qed

lemma foldl_zeros:
  "foldl (\<lambda>a c. 16 * a + the (digit_value c)) 0 (replicate m (CHR ''0'')) = 0"
  by (induction m) (simp_all add: digit_value_def)

lemma lower_hex_digit: "is_lower_hex c \<Longrightarrow> digit_value c \<noteq> None"
  by (auto simp: is_lower_hex_def digit_value_def)

lemma hex_literal_fmt_04x: "hex_literal (fmt_04x n) = Some n"
proof -
  have d: "list_all (\<lambda>c. digit_value c \<noteq> None) (fmt_04x n)"
    using fmt_04x_lower[of n] lower_hex_digit by (auto simp: list_all_iff)
  have ne: "fmt_04x n \<noteq> []" using length_fmt_04x[of n] by auto
  have "foldl (\<lambda>a c. 16 * a + the (digit_value c)) 0 (fmt_04x n) = n"
    by (simp add: fmt_04x_def foldl_zeros foldl_to_hex)
  then show ?thesis using hex_literal_all_digits[OF d ne] by simp
qed

subsection \<open>Groups and lines\<close>

lemma set_byte_at: "set (byte_at h p) \<subseteq> set h"
  unfolding byte_at_def using set_take_subset set_drop_subset by fast

lemma byte_at_nonempty: "p < (length h + 1) div 2 \<Longrightarrow> byte_at h p \<noteq> []"
  by (simp add: byte_at_def)

lemma length_byte_at: "length (byte_at h p) \<le> 2"
  by (simp add: byte_at_def)

lemma group_chars:
  assumes "is_hex_string h"
  shows "CHR '' '' \<notin> set (rendered_group h offset num_bytes p)"
    and "CHR 0x0A \<notin> set (rendered_group h offset num_bytes p)"
  using hex_string_chars[OF assms] color_chars set_byte_at[of h p]
  by (auto simp: rendered_group_def)

lemma group_nonempty:
  "p < (length h + 1) div 2 \<Longrightarrow> rendered_group h offset num_bytes p \<noteq> []"
  by (simp add: rendered_group_def byte_at_nonempty)

lemma line_label_rendered:
  "line_label (rendered_line h offset num_bytes k) = fmt_04x (16 * k)"
proof -
  have "\<And>x. x \<in> set (fmt_04x (16 * k)) \<Longrightarrow> x \<noteq> CHR '' ''"
    using fmt_04x_chars(1) by blast
  then have "takeWhile (\<lambda>c. c \<noteq> CHR '' '') (fmt_04x (16 * k) @ ''  '' @ r) = fmt_04x (16 * k)" for r
    by (simp add: takeWhile_append2)
  then show ?thesis by (simp only: line_label_def rendered_line_def)
qed

lemma line_groups_rendered:
  assumes "is_hex_string h" "k < (length h + 31) div 32"
  shows "line_groups (rendered_line h offset num_bytes k) =
     map (rendered_group h offset num_bytes) [16 * k..<min (16 * k + 16) ((length h + 1) div 2)]"
proof -
  let ?gs = "map (rendered_group h offset num_bytes)
               [16 * k..<min (16 * k + 16) ((length h + 1) div 2)]"
  have "\<And>x. x \<in> set (fmt_04x (16 * k)) \<Longrightarrow> x \<noteq> CHR '' ''"
    using fmt_04x_chars(1) by blast
  then have "dropWhile (\<lambda>c. c \<noteq> CHR '' '') (fmt_04x (16 * k) @ ''  '' @ r) = ''  '' @ r" for r
    by (simp add: dropWhile_append2)
  then have 1: "line_groups (rendered_line h offset num_bytes k) =
      split_on (CHR '' '') (py_join '' '' ?gs)"
    by (simp add: line_groups_def rendered_line_def)
  have "16 * k < (length h + 1) div 2" using assms(2) by linarith
  then have ne: "?gs \<noteq> []" by simp
  have "\<forall>x \<in> set ?gs. CHR '' '' \<notin> set x"
    using group_chars(1)[OF assms(1)] by auto
  then show ?thesis unfolding 1 using ne by (rule split_on_py_join[rotated])
qed

lemma line_no_newline:
  assumes "is_hex_string h"
  shows "CHR 0x0A \<notin> set (rendered_line h offset num_bytes k)"
proof -
  let ?gs = "map (rendered_group h offset num_bytes)
               [16 * k..<min (16 * k + 16) ((length h + 1) div 2)]"
  have "CHR 0x0A \<notin> set (py_join '' '' ?gs)"
    using set_py_join[of "'' ''" ?gs] group_chars(2)[OF assms] by auto
  then show ?thesis
    using fmt_04x_chars(2)[of "16 * k"] by (simp add: rendered_line_def)
qed

lemma line_nonempty: "rendered_line h offset num_bytes k \<noteq> []"
  by (simp add: rendered_line_def)

lemma dump_lines_format:
  assumes "is_hex_string h"
  shows "dump_lines (format_hex_dump h offset num_bytes) =
     map (rendered_line h offset num_bytes) [0..<(length h + 31) div 32]"
proof (cases "(length h + 31) div 32 = 0")
  case True
  then show ?thesis
    by (simp add: format_hex_dump_def formatted_lines_eq dump_lines_def)
next
  case False
  let ?ls = "map (rendered_line h offset num_bytes) [0..<(length h + 31) div 32]"
  have ne: "?ls \<noteq> []" using False by simp
  have all_ne: "\<forall>x \<in> set ?ls. x \<noteq> []" using line_nonempty by auto
  have nonl: "\<forall>x \<in> set ?ls. CHR 0x0A \<notin> set x" using line_no_newline[OF assms] by auto
  have "py_join [CHR 0x0A] ?ls \<noteq> []" using ne all_ne by (rule py_join_nonempty)
  then have "dump_lines (format_hex_dump h offset num_bytes) =
      split_on (CHR 0x0A) (py_join [CHR 0x0A] ?ls)"
    by (simp add: format_hex_dump_def formatted_lines_eq dump_lines_def)
  also have "\<dots> = ?ls" using ne nonl by (rule split_on_py_join)
  finally show ?thesis .
qed

lemma lines_cover: "min (16 * ((n + 31) div 32)) ((n + 1) div 2) = (n + 1) div (2::nat)"
  by linarith

lemma dump_groups_format:
  assumes "is_hex_string h"
  shows "dump_groups (format_hex_dump h offset num_bytes) =
     map (rendered_group h offset num_bytes) [0..<(length h + 1) div 2]"
proof -
  let ?nl = "(length h + 31) div 32"
  let ?B = "(length h + 1) div 2"
  have "map line_groups (map (rendered_line h offset num_bytes) [0..<?nl]) =
        map (\<lambda>k. map (rendered_group h offset num_bytes) [16 * k..<min (16 * k + 16) ?B]) [0..<?nl]"
    using line_groups_rendered[OF assms] by simp
  then have "dump_groups (format_hex_dump h offset num_bytes) =
     concat (map (\<lambda>k. map (rendered_group h offset num_bytes) [16 * k..<min (16 * k + 16) ?B])
               [0..<?nl])"
    by (simp only: dump_groups_def dump_lines_format[OF assms])
  also have "\<dots> = map (rendered_group h offset num_bytes)
      (concat (map (\<lambda>k. [16 * k..<min (16 * k + 16) ?B]) [0..<?nl]))"
    by (simp add: map_concat comp_def)
  also have "\<dots> = map (rendered_group h offset num_bytes) [0..<?B]"
    by (simp only: concat_ranges lines_cover)
  finally show ?thesis .
qed

lemma length_colors: "length HIGHLIGHT_COLOR = 7" "length RESET_COLOR = 4"
  by (simp_all add: HIGHLIGHT_COLOR_def RESET_COLOR_def)

lemma is_marked_group:
  "is_marked (rendered_group h offset num_bytes p) = in_range offset num_bytes p"
proof (cases "in_range offset num_bytes p")
  case True
  then show ?thesis by (simp add: rendered_group_def is_marked_def startswith_def)
next
  case False
  have "take (length HIGHLIGHT_COLOR) (byte_at h p) \<noteq> HIGHLIGHT_COLOR"
  proof
    assume "take (length HIGHLIGHT_COLOR) (byte_at h p) = HIGHLIGHT_COLOR"
    then have "length (take (length HIGHLIGHT_COLOR) (byte_at h p)) = 7"
      by (simp only: length_colors)
    then show False using length_byte_at[of h p] by simp
  qed
  then show ?thesis using False by (simp add: rendered_group_def is_marked_def startswith_def)
qed

lemma unmark_group: "unmark (rendered_group h offset num_bytes p) = byte_at h p"
proof (cases "in_range offset num_bytes p")
  case True
  then have "is_marked (rendered_group h offset num_bytes p)" by (simp add: is_marked_group)
  then show ?thesis using True by (simp add: unmark_def rendered_group_def)
next
  case False
  then have "\<not> is_marked (rendered_group h offset num_bytes p)" by (simp add: is_marked_group)
  then show ?thesis using False by (simp add: unmark_def rendered_group_def)
qed

lemma concat_bytes: "concat (map (byte_at h) [0..<n]) = take (2 * n) h"
proof (induction n)
  case 0
  then show ?case by simp
next
  case (Suc n)
  have "take (2 * n) h @ take 2 (drop (2 * n) h) = take (2 * n + 2) h"
    using take_add[of "2 * n" 2 h] by simp
  then show ?case using Suc by (simp add: byte_at_def)
qed

lemma bytes_roundtrip:
  assumes "is_hex_string h"
  shows "concat (map unmark (dump_groups (format_hex_dump h offset num_bytes))) = h"
proof -
  have "map unmark (dump_groups (format_hex_dump h offset num_bytes)) =
        map (byte_at h) [0..<(length h + 1) div 2]"
    by (simp add: dump_groups_format[OF assms] unmark_group)
  then have "concat (map unmark (dump_groups (format_hex_dump h offset num_bytes))) =
     take (2 * ((length h + 1) div 2)) h"
    by (simp only: concat_bytes)
  also have "\<dots> = h" by simp
  finally show ?thesis .
qed

subsection \<open>The rendered dump\<close>

lemma to_hex_values: "to_hex 32 = ''20''" "to_hex 65536 = ''10000''" "to_hex 0 = ''0''"
  by (simp_all add: to_hex.simps hex_char_def)

lemma fmt_04x_values: "fmt_04x 32 = ''0020''" "fmt_04x 65536 = ''10000''" "fmt_04x 0 = ''0000''"
  by (simp_all add: fmt_04x_def to_hex_values numeral_2_eq_2 numeral_3_eq_3)

lemma line_count: "even n \<Longrightarrow> (n + 31) div 32 = (n div 2 + 15) div (16::nat)"
proof -
  assume "even n"
  then obtain m where n: "n = 2 * m" by (elim evenE)
  have "(2 * m + 31) div 32 = (2 * m + 31) div 2 div 16"
    using div_mult2_eq[of "2 * m + 31" 2 16] by simp
  also have "(2 * m + 31) div 2 = m + 15" by simp
  finally show ?thesis by (simp add: n)
qed

text \<open>
  Claim C5, as amended. For every even-length hex string, whatever the highlight
  parameters, the dump has \<open>ceil(bytes/16)\<close> lines (none for the empty string); line \<open>k\<close>
  begins with the offset \<open>16 k\<close> of its first byte in lower-case hexadecimal, padded with
  zeros to at least four digits (exactly four while the offset is below 65536), followed
  by two spaces; and the byte groups of all lines, unmarked and concatenated in order,
  are the original hex string, a final partial line included.
\<close>

theorem hex_dump_lines_labels_bytes:
  assumes "is_hex_string h" and "even (length h)"
  shows "length (dump_lines (format_hex_dump h offset num_bytes)) = (length h div 2 + 15) div 16 \<and>
         (\<forall>k < length (dump_lines (format_hex_dump h offset num_bytes)).
            startswith (dump_lines (format_hex_dump h offset num_bytes) ! k)
              (line_label (dump_lines (format_hex_dump h offset num_bytes) ! k) @ ''  '') \<and>
            line_label (dump_lines (format_hex_dump h offset num_bytes) ! k) = fmt_04x (16 * k) \<and>
            list_all is_lower_hex
              (line_label (dump_lines (format_hex_dump h offset num_bytes) ! k)) \<and>
            hex_literal (line_label (dump_lines (format_hex_dump h offset num_bytes) ! k))
              = Some (16 * k) \<and>
            4 \<le> length (line_label (dump_lines (format_hex_dump h offset num_bytes) ! k)) \<and>
            (16 * k < 65536 \<longrightarrow>
               length (line_label (dump_lines (format_hex_dump h offset num_bytes) ! k)) = 4)) \<and>
         concat (map unmark (dump_groups (format_hex_dump h offset num_bytes))) = h"
proof (intro conjI allI impI)
  let ?ls = "dump_lines (format_hex_dump h offset num_bytes)"
  have ls: "?ls = map (rendered_line h offset num_bytes) [0..<(length h + 31) div 32]"
    by (rule dump_lines_format[OF assms(1)])
  show "length ?ls = (length h div 2 + 15) div 16"
    by (simp add: ls line_count[OF assms(2)])
  show "concat (map unmark (dump_groups (format_hex_dump h offset num_bytes))) = h"
    by (rule bytes_roundtrip[OF assms(1)])
  fix k
  assume "k < length ?ls"
  then have k: "k < (length h + 31) div 32" by (simp add: ls)
  then have nth: "?ls ! k = rendered_line h offset num_bytes k" by (simp add: ls)
  show lab: "line_label (?ls ! k) = fmt_04x (16 * k)"
    by (simp only: nth line_label_rendered)
  show "startswith (?ls ! k) (line_label (?ls ! k) @ ''  '')"
    unfolding lab unfolding nth by (simp add: rendered_line_def startswith_def)
  show "list_all is_lower_hex (line_label (?ls ! k))"
    unfolding lab by (rule fmt_04x_lower)
  show "hex_literal (line_label (?ls ! k)) = Some (16 * k)"
    unfolding lab by (rule hex_literal_fmt_04x)
  show "4 \<le> length (line_label (?ls ! k))"
    unfolding lab by (rule length_fmt_04x)
  show "length (line_label (?ls ! k)) = 4" if "16 * k < 65536"
    unfolding lab using that by (rule length_fmt_04x_small)
qed

text \<open>
  Claim C6. The dump of a hex string has one group per byte, and group \<open>p\<close> is marked
  exactly when both highlight parameters are supplied and
  \<open>offset \<le> p < offset + num_bytes\<close>; a marked group is the byte between the
  highlight and the reset sequence, an unmarked group is the byte itself. No error
  arises from a range that runs past the end; with an absent parameter, or a length of
  zero or less, no group is marked.
\<close>

theorem highlight_marks_exactly_the_range:
  assumes "is_hex_string h"
  shows "length (dump_groups (format_hex_dump h offset num_bytes)) = (length h + 1) div 2 \<and>
         (\<forall>p < (length h + 1) div 2.
            dump_groups (format_hex_dump h offset num_bytes) ! p =
              (if in_range offset num_bytes p
               then HIGHLIGHT_COLOR @ byte_at h p @ RESET_COLOR else byte_at h p) \<and>
            (is_marked (dump_groups (format_hex_dump h offset num_bytes) ! p) \<longleftrightarrow>
               (\<exists>off nb. offset = Some off \<and> num_bytes = Some nb \<and>
                          off \<le> int p \<and> int p < off + nb))) \<and>
         (offset = None \<or> num_bytes = None \<or> (\<exists>nb. num_bytes = Some nb \<and> nb \<le> 0) \<longrightarrow>
            list_all (\<lambda>g. \<not> is_marked g) (dump_groups (format_hex_dump h offset num_bytes)))"
proof (intro conjI allI impI)
  let ?gs = "dump_groups (format_hex_dump h offset num_bytes)"
  have gs: "?gs = map (rendered_group h offset num_bytes) [0..<(length h + 1) div 2]"
    by (rule dump_groups_format[OF assms])
  show "length ?gs = (length h + 1) div 2" by (simp add: gs)
  have rng: "in_range offset num_bytes p \<longleftrightarrow>
      (\<exists>off nb. offset = Some off \<and> num_bytes = Some nb \<and> off \<le> int p \<and> int p < off + nb)"
    for p
    by (cases offset; cases num_bytes) (simp_all add: in_range_def)
  show "list_all (\<lambda>g. \<not> is_marked g) ?gs"
    if "offset = None \<or> num_bytes = None \<or> (\<exists>nb. num_bytes = Some nb \<and> nb \<le> 0)"
  proof -
    have "\<not> in_range offset num_bytes p" for p
      using that unfolding rng by auto
    then show ?thesis by (simp add: gs list_all_iff is_marked_group)
  qed
  fix p
  assume p: "p < (length h + 1) div 2"
  then have nth: "?gs ! p = rendered_group h offset num_bytes p" by (simp add: gs)
  show "?gs ! p = (if in_range offset num_bytes p
               then HIGHLIGHT_COLOR @ byte_at h p @ RESET_COLOR else byte_at h p)"
    by (simp only: nth rendered_group_def)
  show "is_marked (?gs ! p) \<longleftrightarrow>
      (\<exists>off nb. offset = Some off \<and> num_bytes = Some nb \<and> off \<le> int p \<and> int p < off + nb)"
    by (simp only: nth is_marked_group rng)
qed

lemma sample_hex_facts: "is_hex_string sample_hex" "length sample_hex = 84"
  by (simp_all add: sample_hex_def is_hex_string_def digit_value_def)

lemma sample_bytes:
  "byte_at sample_hex 11 = ''5e''" "byte_at sample_hex 12 = ''08''"
  "byte_at sample_hex 13 = ''06''" "byte_at sample_hex 14 = ''00''"
  by (simp_all add: sample_hex_def byte_at_def)

theorem hex_dump_lines_labels_bytes_witness:
  "is_hex_string sample_hex \<and> even (length sample_hex) \<and>
   length (dump_lines (format_hex_dump sample_hex (Some 12) (Some 2))) = 3 \<and>
   line_label (dump_lines (format_hex_dump sample_hex (Some 12) (Some 2)) ! 2) = ''0020'' \<and>
   hex_literal (line_label (dump_lines (format_hex_dump sample_hex (Some 12) (Some 2)) ! 2))
     = Some 32 \<and>
   concat (map unmark (dump_groups (format_hex_dump sample_hex (Some 12) (Some 2)))) = sample_hex"
proof -
  have e: "even (length sample_hex)" by (simp add: sample_hex_facts(2))
  note T = hex_dump_lines_labels_bytes [OF sample_hex_facts(1) e, of "Some 12" "Some 2"]
  have n: "length (dump_lines (format_hex_dump sample_hex (Some 12) (Some 2))) = 3"
    using T by (simp add: sample_hex_facts(2))
  have k: "2 < length (dump_lines (format_hex_dump sample_hex (Some 12) (Some 2)))"
    by (simp add: n)
  note L = T [THEN conjunct2, THEN conjunct1, rule_format, OF k]
  have "line_label (dump_lines (format_hex_dump sample_hex (Some 12) (Some 2)) ! 2) = ''0020''"
    using L by (simp add: fmt_04x_values)
  moreover have
    "hex_literal (line_label (dump_lines (format_hex_dump sample_hex (Some 12) (Some 2)) ! 2))
       = Some 32"
    using L by (simp add: hex_literal_fmt_04x)
  moreover have
    "concat (map unmark (dump_groups (format_hex_dump sample_hex (Some 12) (Some 2)))) = sample_hex"
    using T by blast
  ultimately show ?thesis using sample_hex_facts(1) e n by blast
qed

text \<open>
  A dump of 65537 bytes: the line of the byte at offset 65536 has a label of five digits.
\<close>

theorem label_width_counterexample:
  "is_hex_string (replicate 131074 (CHR ''0'')) \<and>
   even (length (replicate 131074 (CHR ''0''))) \<and>
   line_label (dump_lines (format_hex_dump (replicate 131074 (CHR ''0'')) None None) ! 4096)
     = ''10000'' \<and>
   length (line_label
     (dump_lines (format_hex_dump (replicate 131074 (CHR ''0'')) None None) ! 4096)) \<noteq> 4"
proof -
  define h where "h = replicate 131074 (CHR ''0'')"
  have len: "length h = 131074" by (simp add: h_def)
  have "\<forall>c \<in> set h. digit_value c \<noteq> None"
  proof
    fix c
    assume "c \<in> set h"
    then have "c = CHR ''0''" by (simp add: h_def)
    then show "digit_value c \<noteq> None" by (simp add: digit_value_def)
  qed
  then have hx: "is_hex_string h" by (simp add: is_hex_string_def list_all_iff)
  have "4096 < (length h + 31) div 32 - 0" by (simp add: len)
  then have "map (rendered_line h None None) [0..<(length h + 31) div 32] ! 4096 =
      rendered_line h None None (0 + 4096)"
    by (rule nth_map_upt)
  then have "dump_lines (format_hex_dump h None None) ! 4096 = rendered_line h None None 4096"
    by (simp only: dump_lines_format[OF hx] add_0)
  then have lab: "line_label (dump_lines (format_hex_dump h None None) ! 4096) = ''10000''"
    by (simp add: line_label_rendered fmt_04x_values)
  have "even (length h)" by (simp add: len)
  then show ?thesis using hx lab unfolding h_def by simp
qed

theorem highlight_marks_exactly_the_range_witness:
  "is_hex_string sample_hex \<and>
   length (dump_groups (format_hex_dump sample_hex (Some 12) (Some 2))) = 42 \<and>
   dump_groups (format_hex_dump sample_hex (Some 12) (Some 2)) ! 11 = ''5e'' \<and>
   dump_groups (format_hex_dump sample_hex (Some 12) (Some 2)) ! 12
     = HIGHLIGHT_COLOR @ ''08'' @ RESET_COLOR \<and>
   dump_groups (format_hex_dump sample_hex (Some 12) (Some 2)) ! 13
     = HIGHLIGHT_COLOR @ ''06'' @ RESET_COLOR \<and>
   dump_groups (format_hex_dump sample_hex (Some 12) (Some 2)) ! 14 = ''00'' \<and>
   is_marked (dump_groups (format_hex_dump sample_hex (Some 40) (Some 10)) ! 41) \<and>
   \<not> is_marked (dump_groups (format_hex_dump sample_hex (Some 12) (Some 0)) ! 12) \<and>
   \<not> is_marked (dump_groups (format_hex_dump sample_hex (Some 12) None) ! 12)"
proof -
  have B: "(length sample_hex + 1) div 2 = 42" by (simp add: sample_hex_facts(2))
  have p: "11 < (length sample_hex + 1) div 2" "12 < (length sample_hex + 1) div 2"
    "13 < (length sample_hex + 1) div 2" "14 < (length sample_hex + 1) div 2"
    "41 < (length sample_hex + 1) div 2"
    by (simp_all add: sample_hex_facts(2))
  note T = highlight_marks_exactly_the_range [OF sample_hex_facts(1)]
  note G = T [of "Some 12" "Some 2", THEN conjunct2, THEN conjunct1, rule_format]
  have r: "\<not> in_range (Some 12) (Some 2) 11" "in_range (Some 12) (Some 2) 12"
    "in_range (Some 12) (Some 2) 13" "\<not> in_range (Some 12) (Some 2) 14"
    by (simp_all add: in_range_def)
  have 1: "length (dump_groups (format_hex_dump sample_hex (Some 12) (Some 2))) = 42"
    using T [of "Some 12" "Some 2"] B by simp
  have 2: "dump_groups (format_hex_dump sample_hex (Some 12) (Some 2)) ! 11 = ''5e''"
    using G [OF p(1)] by (simp add: r sample_bytes)
  have 3: "dump_groups (format_hex_dump sample_hex (Some 12) (Some 2)) ! 12
     = HIGHLIGHT_COLOR @ ''08'' @ RESET_COLOR"
    using G [OF p(2)] by (simp add: r sample_bytes)
  have 4: "dump_groups (format_hex_dump sample_hex (Some 12) (Some 2)) ! 13
     = HIGHLIGHT_COLOR @ ''06'' @ RESET_COLOR"
    using G [OF p(3)] by (simp add: r sample_bytes)
  have 5: "dump_groups (format_hex_dump sample_hex (Some 12) (Some 2)) ! 14 = ''00''"
    using G [OF p(4)] by (simp add: r sample_bytes)
  have 6: "is_marked (dump_groups (format_hex_dump sample_hex (Some 40) (Some 10)) ! 41)"
    using T [of "Some 40" "Some 10", THEN conjunct2, THEN conjunct1, rule_format, THEN conjunct2, OF p(5)]
    by simp
  have 7: "\<not> is_marked (dump_groups (format_hex_dump sample_hex (Some 12) (Some 0)) ! 12)"
    using T [of "Some 12" "Some 0", THEN conjunct2, THEN conjunct1, rule_format, THEN conjunct2, OF p(2)]
    by simp
  have 8: "\<not> is_marked (dump_groups (format_hex_dump sample_hex (Some 12) None) ! 12)"
    using T [of "Some 12" None, THEN conjunct2, THEN conjunct1, rule_format, THEN conjunct2, OF p(2)]
    by simp
  from sample_hex_facts(1) 1 2 3 4 5 6 7 8 show ?thesis by blast
qed

end
